theory Spec2Isabelle
  imports Main
begin

section \<open>JavaScript values reaching the coordinator\<close>

text \<open>
  The plan-creator extension (index.ts, server.ts) passes whatever \<^verbatim>\<open>JSON.parse\<close> returns
  for the body of \<^verbatim>\<open>POST /submit\<close> to the coordinator, cast to \<^verbatim>\<open>PlanReviewResult\<close> without
  a check. The value is therefore modelled untyped. Field values are \<open>jsval\<close>: undefined,
  null, booleans, numbers, strings and arrays of such. A \<open>payload\<close> is either such a plain
  value or an object whose own properties are listed once each, in an association list.
  Objects nested inside a field are outside the model, and so are numbers that are not
  integers JavaScript represents exactly. Strings are lists of 8-bit characters, one
  \<open>char\<close> per UTF-16 code unit; text beyond U+00FF occurs only in the fixed status markers
  of the renderer, which are carried as the bytes they have in the source file.
\<close>

datatype jsval = Undefined | Null | JBool bool | JNum int | JStr string | JArr "jsval list"

datatype payload = Plain jsval | JObj "(string \<times> jsval) list"

datatype js_error = TypeError

fun truthy :: "jsval \<Rightarrow> bool" where
  "truthy Undefined = False"
| "truthy Null = False"
| "truthy (JBool b) = b"
| "truthy (JNum n) = (n \<noteq> 0)"
| "truthy (JStr s) = (s \<noteq> [])"
| "truthy (JArr xs) = True"

fun truthy_payload :: "payload \<Rightarrow> bool" where
  "truthy_payload (Plain v) = truthy v"
| "truthy_payload (JObj kvs) = True"

text \<open>
  \<open>prop_get r k\<close> is \<^verbatim>\<open>r.k\<close> (or \<^verbatim>\<open>r?.k\<close>) for the seven field names the code reads off a
  review: none of them exists on a number, string, boolean or array, and the code reads
  them off null only through \<^verbatim>\<open>?.\<close>, which gives undefined.
\<close>

fun prop_get :: "payload \<Rightarrow> string \<Rightarrow> jsval" where
  "prop_get (JObj kvs) k = (case map_of kvs k of Some v \<Rightarrow> v | None \<Rightarrow> Undefined)"
| "prop_get (Plain v) k = Undefined"

definition opt_get :: "payload option \<Rightarrow> string \<Rightarrow> jsval" where
  "opt_get r k = (case r of None \<Rightarrow> Undefined | Some p \<Rightarrow> prop_get p k)"

subsection \<open>Strings\<close>

definition digit_char :: "nat \<Rightarrow> char" where
  "digit_char d = char_of (48 + d)"

fun digits :: "nat \<Rightarrow> string" where
  "digits n = (if n < 10 then [digit_char n] else digits (n div 10) @ [digit_char (n mod 10)])"

definition show_int :: "int \<Rightarrow> string" where
  "show_int i = (if i < 0 then CHR ''-'' # digits (nat (- i)) else digits (nat i))"

fun join :: "string \<Rightarrow> string list \<Rightarrow> string" where
  "join sep [] = []"
| "join sep [x] = x"
| "join sep (x # y # ys) = x @ sep @ join sep (y # ys)"

fun starts_with :: "string \<Rightarrow> string \<Rightarrow> bool" where
  "starts_with [] s = True"
| "starts_with (p # ps) [] = False"
| "starts_with (p # ps) (c # cs) = (p = c \<and> starts_with ps cs)"

text \<open>\<^verbatim>\<open>s.indexOf(needle)\<close>, with \<open>None\<close> for -1.\<close>

fun index_of :: "string \<Rightarrow> string \<Rightarrow> nat option" where
  "index_of needle [] = (if needle = [] then Some 0 else None)"
| "index_of needle (c # cs) =
     (if starts_with needle (c # cs) then Some 0
      else map_option Suc (index_of needle cs))"

text \<open>ToString, as a template literal applies it; \<^verbatim>\<open>Array.prototype.join\<close> prints null and
  undefined elements as the empty string.\<close>

fun to_str :: "jsval \<Rightarrow> string" and elem_strs :: "jsval list \<Rightarrow> string list" where
  "to_str Undefined = ''undefined''"
| "to_str Null = ''null''"
| "to_str (JBool b) = (if b then ''true'' else ''false'')"
| "to_str (JNum n) = show_int n"
| "to_str (JStr s) = s"
| "to_str (JArr xs) = join '','' (elem_strs xs)"
| "elem_strs [] = []"
| "elem_strs (Undefined # xs) = [] # elem_strs xs"
| "elem_strs (Null # xs) = [] # elem_strs xs"
| "elem_strs (x # xs) = to_str x # elem_strs xs"

text \<open>
  \<^verbatim>\<open>v.includes(n)\<close> for a phase number \<open>n\<close>: membership in an array, substring search for
  the printed number in a string, and a TypeError (\<open>None\<close>) on every other value, which has
  no such method.
\<close>

fun js_includes :: "jsval \<Rightarrow> int \<Rightarrow> bool option" where
  "js_includes (JArr xs) n = Some (JNum n \<in> set xs)"
| "js_includes (JStr s) n = Some (index_of (show_int n) s \<noteq> None)"
| "js_includes v n = None"

text \<open>\<^verbatim>\<open>v.length > 0\<close>: the length of a number or boolean is undefined, which is not above 0.\<close>

fun length_gt0 :: "jsval \<Rightarrow> bool" where
  "length_gt0 (JArr xs) = (xs \<noteq> [])"
| "length_gt0 (JStr s) = (s \<noteq> [])"
| "length_gt0 v = False"

text \<open>The values \<^verbatim>\<open>for (const x of v)\<close> visits, for \<open>v\<close> an array or a string.\<close>

fun for_of :: "jsval \<Rightarrow> jsval list" where
  "for_of (JArr xs) = xs"
| "for_of (JStr s) = map (\<lambda>c. JStr [c]) s"
| "for_of v = []"

text \<open>\<^verbatim>\<open>v[0]\<close>.\<close>

fun index0 :: "jsval \<Rightarrow> jsval" where
  "index0 (JArr (x # xs)) = x"
| "index0 (JStr (c # cs)) = JStr [c]"
| "index0 v = Undefined"

text \<open>\<^verbatim>\<open>a || b\<close>.\<close>

definition js_or :: "jsval \<Rightarrow> jsval \<Rightarrow> jsval" where
  "js_or a b = (if truthy a then a else b)"

section \<open>The proposal and the typed decision\<close>

record SuccessCriteria =
  automated :: "string list"
  manual :: "string list"

record PlanPhase =
  number :: int
  name :: string
  description :: string
  tasks :: "string list"
  successCriteria :: SuccessCriteria
  implementationNotes :: "string option"

record TestingStrategy =
  ts_unit :: "string list"
  ts_integration :: "string list"
  ts_manual :: "string list"

record ImplementationPlan =
  title :: string
  overview :: string
  currentState :: "string option"
  desiredEndState :: "string option"
  outOfScope :: "string list option"
  phases :: "PlanPhase list"
  testingStrategy :: "TestingStrategy option"
  references :: "string list option"

datatype decision = Approve | Modify | Reject

record PlanReviewResult =
  decision :: decision
  selectedPhases :: "int list"
  priority :: string
  approach :: string
  requirements :: "string list"
  constraints :: "string list"
  review_notes :: string

fun decision_str :: "decision \<Rightarrow> string" where
  "decision_str Approve = ''approve''"
| "decision_str Modify = ''modify''"
| "decision_str Reject = ''reject''"

text \<open>A well-typed \<^verbatim>\<open>PlanReviewResult\<close> as the JavaScript object it is.\<close>

definition review_js :: "PlanReviewResult \<Rightarrow> payload" where
  "review_js r = JObj
     [(''decision'', JStr (decision_str (decision r))),
      (''selectedPhases'', JArr (map JNum (selectedPhases r))),
      (''priority'', JStr (priority r)),
      (''approach'', JStr (approach r)),
      (''requirements'', JArr (map JStr (requirements r))),
      (''constraints'', JArr (map JStr (constraints r))),
      (''notes'', JStr (review_notes r))]"

text \<open>\<^verbatim>\<open>PlanReviewResult | null\<close>, as \<^verbatim>\<open>finish\<close> receives it.\<close>

definition review_arg :: "PlanReviewResult option \<Rightarrow> payload" where
  "review_arg r = (case r of None \<Rightarrow> Plain Null | Some x \<Rightarrow> review_js x)"

text \<open>An optional string field is used when it is present and not empty.\<close>

definition present :: "string option \<Rightarrow> bool" where
  "present s = (case s of None \<Rightarrow> False | Some x \<Rightarrow> x \<noteq> [])"

definition items :: "string list option \<Rightarrow> string list" where
  "items xs = (case xs of None \<Rightarrow> [] | Some ys \<Rightarrow> ys)"

section \<open>The artifact renderer (index.ts, planToMarkdown)\<close>

definition nl :: string where
  "nl = [CHR 0x0A]"

text \<open>The status markers, byte for byte as the source file holds them.\<close>

definition mark_approved :: string where
  "mark_approved = [CHR 0xC3, CHR 0xA2, CHR 0xC5, CHR 0x93, CHR 0xE2, CHR 0x80, CHR 0xA6]"

definition mark_modified :: string where
  "mark_modified = [CHR 0xC3, CHR 0xB0, CHR 0xC5, CHR 0xB8, CHR 0xE2, CHR 0x80, CHR 0x9D,
                    CHR 0xE2, CHR 0x80, CHR 0x9E]"

definition mark_rejected :: string where
  "mark_rejected = [CHR 0xC3, CHR 0xA2, CHR 0xC5, CHR 0x92]"

definition mark_skipped :: string where
  "mark_skipped = [CHR 0xC3, CHR 0xA2, CHR 0xC2, CHR 0xAD, CHR 0xC3, CHR 0xAF, CHR 0xC2, CHR 0xB8]"

definition excluded_note :: string where
  "excluded_note = ''*This phase was excluded from the implementation scope.*''"

definition bullets :: "string list \<Rightarrow> string list" where
  "bullets xs = map (\<lambda>item. ''- '' @ item) xs"

definition checkboxes :: "string list \<Rightarrow> string list" where
  "checkboxes xs = map (\<lambda>item. ''- [ ] '' @ item) xs"

definition status_line :: "payload \<Rightarrow> string" where
  "status_line review = ''> **Status:** '' @
     (if prop_get review ''decision'' = JStr ''approve'' then mark_approved @ '' Approved''
      else if prop_get review ''decision'' = JStr ''modify''
        then mark_modified @ '' Approved with modifications''
      else mark_rejected @ '' Rejected'')"

text \<open>The lines pushed before the loop over the phases.\<close>

definition plan_head :: "ImplementationPlan \<Rightarrow> payload option \<Rightarrow> string list" where
  "plan_head plan review =
     [''# '' @ title plan, ''''] @
     (case review of
        Some r \<Rightarrow>
          if truthy_payload r
          then [status_line r,
                ''> **Priority:** '' @ to_str (prop_get r ''priority''),
                ''> **Approach:** '' @ to_str (prop_get r ''approach''),
                '''']
          else []
      | None \<Rightarrow> []) @
     [''## Overview'', '''', overview plan, ''''] @
     (if present (currentState plan)
      then [''## Current State'', '''', the (currentState plan), ''''] else []) @
     (if present (desiredEndState plan)
      then [''## Desired End State'', '''', the (desiredEndState plan), ''''] else []) @
     (if items (outOfScope plan) \<noteq> []
      then [''## Out of Scope'', ''''] @ bullets (items (outOfScope plan)) @ [''''] else []) @
     [''## Implementation Phases'', '''']"

definition phase_heading :: "PlanPhase \<Rightarrow> bool \<Rightarrow> string" where
  "phase_heading phase included =
     ''### Phase '' @ show_int (number phase) @ '': '' @ name phase @ '' '' @
     (if included then mark_approved else mark_skipped @ '' Skipped'')"

text \<open>The lines of an included phase after its heading.\<close>

definition phase_full :: "PlanPhase \<Rightarrow> string list" where
  "phase_full phase =
     [description phase, ''''] @
     (if tasks phase \<noteq> []
      then [''**Tasks:**''] @ checkboxes (tasks phase) @ [''''] else []) @
     [''**Success Criteria:**'', ''''] @
     (if automated (successCriteria phase) \<noteq> []
      then [''*Automated:*''] @ checkboxes (automated (successCriteria phase)) else []) @
     (if manual (successCriteria phase) \<noteq> []
      then ['''', ''*Manual:*''] @ checkboxes (manual (successCriteria phase)) else []) @
     [''''] @
     (if present (implementationNotes phase)
      then [''> **Implementation Note:** '' @ the (implementationNotes phase), ''''] else []) @
     [''---'', '''']"

text \<open>What one turn of the loop over \<^verbatim>\<open>plan.phases\<close> pushes, once \<open>included\<close> is known.\<close>

definition phase_block :: "PlanPhase \<Rightarrow> bool \<Rightarrow> string list" where
  "phase_block phase included =
     [phase_heading phase included, ''''] @
     (if \<not> included then [excluded_note, ''''] else phase_full phase)"

text \<open>One turn of the loop: its lines, or the TypeError of \<^verbatim>\<open>selectedPhases.includes\<close>.\<close>

definition render_phase :: "jsval \<Rightarrow> PlanPhase \<Rightarrow> js_error + string list" where
  "render_phase selected phase =
     (case js_includes selected (number phase) of
        None \<Rightarrow> Inl TypeError
      | Some included \<Rightarrow> Inr (phase_block phase included))"

fun phases_loop :: "jsval \<Rightarrow> PlanPhase list \<Rightarrow> string list \<Rightarrow> js_error + string list" where
  "phases_loop selected [] lines = Inr lines"
| "phases_loop selected (phase # rest) lines =
     (case render_phase selected phase of
        Inl e \<Rightarrow> Inl e
      | Inr pushed \<Rightarrow> phases_loop selected rest (lines @ pushed))"

definition testing_lines :: "TestingStrategy \<Rightarrow> string list" where
  "testing_lines ts =
     [''## Testing Strategy'', ''''] @
     (if ts_unit ts \<noteq> [] then [''### Unit Tests''] @ bullets (ts_unit ts) @ [''''] else []) @
     (if ts_integration ts \<noteq> []
      then [''### Integration Tests''] @ bullets (ts_integration ts) @ [''''] else []) @
     (if ts_manual ts \<noteq> [] then [''### Manual Testing''] @ bullets (ts_manual ts) @ [''''] else [])"

text \<open>A list section of the review: \<^verbatim>\<open>if (v && v.length > 0) for (const x of v) ...\<close>.\<close>

definition review_list :: "string \<Rightarrow> jsval \<Rightarrow> string list" where
  "review_list heading v =
     (if truthy v \<and> length_gt0 v
      then [heading, ''''] @ bullets (map to_str (for_of v)) @ [''''] else [])"

text \<open>The lines pushed after the loop; \<open>generated\<close> is \<^verbatim>\<open>new Date().toISOString()\<close>.\<close>

definition plan_tail :: "ImplementationPlan \<Rightarrow> payload option \<Rightarrow> string \<Rightarrow> string list" where
  "plan_tail plan review generated =
     (case testingStrategy plan of None \<Rightarrow> [] | Some ts \<Rightarrow> testing_lines ts) @
     review_list ''## Additional Requirements'' (opt_get review ''requirements'') @
     review_list ''## Constraints'' (opt_get review ''constraints'') @
     (if truthy (opt_get review ''notes'')
      then [''## User Notes'', '''', to_str (opt_get review ''notes''), ''''] else []) @
     (if items (references plan) \<noteq> []
      then [''## References'', ''''] @ bullets (items (references plan)) @ [''''] else []) @
     [''---'', ''*Generated: '' @ generated @ ''*'']"

text \<open>\<^verbatim>\<open>review?.selectedPhases || plan.phases.map((p) => p.number)\<close>.\<close>

definition effective_phases :: "ImplementationPlan \<Rightarrow> payload option \<Rightarrow> jsval" where
  "effective_phases plan review =
     js_or (opt_get review ''selectedPhases'') (JArr (map (\<lambda>p. JNum (number p)) (phases plan)))"

definition markdown_lines ::
  "ImplementationPlan \<Rightarrow> payload option \<Rightarrow> string \<Rightarrow> js_error + string list" where
  "markdown_lines plan review generated =
     (case phases_loop (effective_phases plan review) (phases plan) (plan_head plan review) of
        Inl e \<Rightarrow> Inl e
      | Inr lines \<Rightarrow> Inr (lines @ plan_tail plan review generated))"

definition planToMarkdown ::
  "ImplementationPlan \<Rightarrow> payload option \<Rightarrow> string \<Rightarrow> js_error + string" where
  "planToMarkdown plan review generated =
     (case markdown_lines plan review generated of
        Inl e \<Rightarrow> Inl e
      | Inr lines \<Rightarrow> Inr (join nl lines))"

section \<open>The session: server and coordinator state\<close>

text \<open>
  One review session is the closure state of \<^verbatim>\<open>startPlanServer\<close> (server.ts) and of the
  promise body in \<^verbatim>\<open>execute\<close> (index.ts), the timers the runtime holds for them, and a
  trace of the effects they have had. Time is in milliseconds. What the runtime and the
  machine supply is gathered in \<open>env\<close>: the plan under review, the configured timeout in
  seconds, \<^verbatim>\<open>JSON.parse\<close> (\<open>None\<close> when it throws), which files of the form exist, the plans
  directory, and how a clock reading prints as a date. File operations are taken to
  succeed.
\<close>

record js_date =
  toISOString :: string
  toTimeString :: string

record env =
  plan :: ImplementationPlan
  timeout :: int
  json_parse :: "string \<Rightarrow> payload option"
  form_file :: "string \<Rightarrow> bool"
  plans_dir :: string
  date_at :: "int \<Rightarrow> js_date"

datatype review_status = Pending | Approved | Rejected

text \<open>What the promise of \<^verbatim>\<open>execute\<close> is resolved with: the text, and the details.\<close>

record tool_result =
  res_text :: string
  res_plan :: ImplementationPlan
  res_status :: review_status
  res_review :: "payload option"
  savedPath :: "string option"

datatype reply_body =
  NoBody | PlainText string | FormPage | Stylesheet | ClientScript
  | HeartbeatJson int | SuccessJson | ErrorJson string

datatype effect =
  Responded nat reply_body
  | Resolve tool_result
  | WriteFile string string
  | MkDir string
  | ServerClose
  | Uncaught js_error

datatype timer_action = IdleTimeout | GraceSubmit payload | GraceCancel

record timer =
  tid :: nat
  due :: int
  act :: timer_action

record session =
  timeoutId :: "nat option"
  lastActivity :: int
  timers :: "timer list"
  fresh :: nat
  listening :: bool
  server :: bool
  resolved :: bool
  abort_listener :: bool
  plans_dir_exists :: bool
  trace :: "effect list"

definition emit :: "effect \<Rightarrow> session \<Rightarrow> session" where
  "emit e s = s\<lparr>trace := trace s @ [e]\<rparr>"

subsection \<open>Timers\<close>

text \<open>Node runs a timer whose delay is below 1 or above 2147483647 after 1 ms.\<close>

definition timer_delay :: "int \<Rightarrow> int" where
  "timer_delay ms = (if ms < 1 \<or> 2147483647 < ms then 1 else ms)"

definition setTimeout :: "timer_action \<Rightarrow> int \<Rightarrow> int \<Rightarrow> session \<Rightarrow> session" where
  "setTimeout a ms now s =
     s\<lparr>timers := timers s @ [\<lparr>tid = fresh s, due = now + timer_delay ms, act = a\<rparr>],
       fresh := Suc (fresh s)\<rparr>"

definition clearTimeout :: "nat \<Rightarrow> session \<Rightarrow> session" where
  "clearTimeout i s = s\<lparr>timers := filter (\<lambda>t. tid t \<noteq> i) (timers s)\<rparr>"

text \<open>\<^verbatim>\<open>if (timeoutId) clearTimeout(timeoutId)\<close>.\<close>

definition clear_idle :: "session \<Rightarrow> session" where
  "clear_idle s = (case timeoutId s of None \<Rightarrow> s | Some i \<Rightarrow> clearTimeout i s)"

definition resetTimeout :: "env \<Rightarrow> int \<Rightarrow> session \<Rightarrow> session" where
  "resetTimeout e now s =
     (let s1 = clear_idle (s\<lparr>lastActivity := now\<rparr>)
      in (setTimeout IdleTimeout (timeout e * 1000) now s1)\<lparr>timeoutId := Some (fresh s1)\<rparr>)"

text \<open>When the idle timer, if it is still pending, is due.\<close>

definition idle_deadline :: "session \<Rightarrow> int option" where
  "idle_deadline s =
     (case timeoutId s of
        None \<Rightarrow> None
      | Some i \<Rightarrow> map_option due (find (\<lambda>t. tid t = i) (timers s)))"

subsection \<open>The coordinator (index.ts, execute)\<close>

definition lower_char :: "char \<Rightarrow> char" where
  "lower_char c =
     (let n = (of_char c :: nat)
      in if (65 \<le> n \<and> n \<le> 90) \<or> (192 \<le> n \<and> n \<le> 222 \<and> n \<noteq> 215) then char_of (n + 32) else c)"

definition toLowerCase :: "string \<Rightarrow> string" where
  "toLowerCase s = map lower_char s"

text \<open>The characters \<^verbatim>\<open>\s\<close> matches, among the 8-bit ones.\<close>

definition is_space :: "char \<Rightarrow> bool" where
  "is_space c = ((of_char c :: nat) \<in> {9, 10, 11, 12, 13, 32, 160})"

text \<open>\<^verbatim>\<open>.replace(/\s+/g, "-")\<close>; \<open>prev\<close> says that the run of spaces has its dash already.\<close>

fun replace_spaces :: "bool \<Rightarrow> string \<Rightarrow> string" where
  "replace_spaces prev [] = []"
| "replace_spaces prev (c # cs) =
     (if is_space c then (if prev then [] else ''-'') @ replace_spaces True cs
      else c # replace_spaces False cs)"

definition slug_char :: "char \<Rightarrow> bool" where
  "slug_char c =
     (let n = (of_char c :: nat)
      in (97 \<le> n \<and> n \<le> 122) \<or> (48 \<le> n \<and> n \<le> 57) \<or> c = CHR ''-'')"

text \<open>\<^verbatim>\<open>title.toLowerCase().replace(/\s+/g, "-").replace(/[^a-z0-9-]/g, "")\<close>.\<close>

definition slug :: "string \<Rightarrow> string" where
  "slug t = filter slug_char (replace_spaces False (toLowerCase t))"

definition generatePlanId :: "js_date \<Rightarrow> string" where
  "generatePlanId now =
     takeWhile (\<lambda>c. c \<noteq> CHR ''T'') (toISOString now) @ ''-'' @
     filter (\<lambda>c. c \<noteq> CHR '':'') (takeWhile (\<lambda>c. c \<noteq> CHR '' '') (toTimeString now))"

definition plan_filename :: "js_date \<Rightarrow> string \<Rightarrow> string" where
  "plan_filename now t = generatePlanId now @ ''-'' @ slug t @ ''.md''"

definition ensurePlansDir :: "env \<Rightarrow> session \<Rightarrow> session" where
  "ensurePlansDir e s =
     (if plans_dir_exists s then s else emit (MkDir (plans_dir e)) (s\<lparr>plans_dir_exists := True\<rparr>))"

text \<open>\<^verbatim>\<open>handle.close\<close> of the server.\<close>

definition close_server :: "session \<Rightarrow> session" where
  "close_server s = emit ServerClose ((clear_idle s)\<lparr>listening := False\<rparr>)"

definition cleanup :: "session \<Rightarrow> session" where
  "cleanup s = (if server s then (close_server s)\<lparr>server := False\<rparr> else s)"

text \<open>\<^verbatim>\<open>plan.phases.filter((p) => selectedPhases.includes(p.number))\<close>.\<close>

fun filter_selected :: "jsval \<Rightarrow> PlanPhase list \<Rightarrow> js_error + PlanPhase list" where
  "filter_selected selected [] = Inr []"
| "filter_selected selected (p # ps) =
     (case js_includes selected (number p) of
        None \<Rightarrow> Inl TypeError
      | Some b \<Rightarrow>
          (case filter_selected selected ps of
             Inl e \<Rightarrow> Inl e
           | Inr qs \<Rightarrow> Inr (if b then p # qs else qs)))"

text \<open>A list section of the summary: \<^verbatim>\<open>if (v && v.length > 0) ... v.map(...).join("\n")\<close>;
  a string has no \<^verbatim>\<open>map\<close>.\<close>

definition summary_list :: "string \<Rightarrow> jsval \<Rightarrow> js_error + string" where
  "summary_list heading v =
     (if truthy v \<and> length_gt0 v
      then (case v of
              JArr xs \<Rightarrow> Inr (heading @ nl @ join nl (map (\<lambda>x. ''- '' @ to_str x) xs) @ nl @ nl)
            | _ \<Rightarrow> Inl TypeError)
      else Inr [])"

definition first_phase_name :: "ImplementationPlan \<Rightarrow> jsval \<Rightarrow> string" where
  "first_phase_name p first =
     (case find (\<lambda>ph. JNum (number ph) = first) (phases p) of
        None \<Rightarrow> ''First phase''
      | Some ph \<Rightarrow> if name ph \<noteq> [] then name ph else ''First phase'')"

definition summary :: "ImplementationPlan \<Rightarrow> payload \<Rightarrow> string \<Rightarrow> js_error + string" where
  "summary p review filepath =
     (let selected = effective_phases p (Some review);
          first = js_or (index0 selected) (JNum 1)
      in case filter_selected selected (phases p) of
           Inl e \<Rightarrow> Inl e
         | Inr chosen \<Rightarrow>
            (case summary_list ''**Additional Requirements:**'' (prop_get review ''requirements'') of
               Inl e \<Rightarrow> Inl e
             | Inr reqs \<Rightarrow>
                (case summary_list ''**Constraints:**'' (prop_get review ''constraints'') of
                   Inl e \<Rightarrow> Inl e
                 | Inr cons \<Rightarrow> Inr (
                     ''**Plan Approved: '' @ title p @ ''**'' @ nl @ nl @
                     ''**Decision:** '' @
                       (if prop_get review ''decision'' = JStr ''approve'' then ''Approved''
                        else ''Approved with modifications'') @ nl @
                     ''**Priority:** '' @ to_str (prop_get review ''priority'') @ nl @
                     ''**Approach:** '' @ to_str (prop_get review ''approach'') @ nl @ nl @
                     ''**Selected Phases:**'' @ nl @
                       join nl (map (\<lambda>ph. show_int (number ph) @ ''. '' @ name ph) chosen) @
                       nl @ nl @
                     reqs @ cons @
                     (if truthy (prop_get review ''notes'')
                      then ''**User Notes:**'' @ nl @ to_str (prop_get review ''notes'') @ nl @ nl
                      else []) @
                     ''Plan saved to: '' @ filepath @ nl @ nl @
                     ''Begin executing Phase '' @ to_str first @ '': '' @
                       first_phase_name p first))))"

definition rejected_result :: "env \<Rightarrow> payload \<Rightarrow> tool_result" where
  "rejected_result e review =
     \<lparr>res_text = ''Plan rejected.'' @ nl @ nl @ ''Reason: '' @
                  to_str (js_or (prop_get review ''notes'') (JStr ''No reason provided'')),
      res_plan = plan e, res_status = Rejected, res_review = Some review, savedPath = None\<rparr>"

definition approved_result :: "env \<Rightarrow> payload \<Rightarrow> string \<Rightarrow> string \<Rightarrow> tool_result" where
  "approved_result e review content filepath =
     \<lparr>res_text = content, res_plan = plan e, res_status = Approved,
      res_review = Some review, savedPath = Some filepath\<rparr>"

text \<open>
  The one-shot guard. \<open>now\<close> is the date the call reads. A TypeError leaves the function
  where it is thrown, after \<^verbatim>\<open>resolved = true\<close> and \<^verbatim>\<open>cleanup()\<close>, and nothing catches it.
\<close>

definition finish :: "env \<Rightarrow> js_date \<Rightarrow> payload \<Rightarrow> session \<Rightarrow> session" where
  "finish e now review s =
     (if resolved s then s
      else
        let s1 = cleanup (s\<lparr>resolved := True\<rparr>)
        in if \<not> truthy_payload review \<or> prop_get review ''decision'' = JStr ''reject''
           then emit (Resolve (rejected_result e review)) s1
           else
             let s2 = ensurePlansDir e s1;
                 filepath = plans_dir e @ ''/'' @ plan_filename now (title (plan e))
             in case planToMarkdown (plan e) (Some review) (toISOString now) of
                  Inl err \<Rightarrow> emit (Uncaught err) s2
                | Inr markdown \<Rightarrow>
                    let s3 = emit (WriteFile filepath markdown) s2
                    in (case summary (plan e) review filepath of
                          Inl err \<Rightarrow> emit (Uncaught err) s3
                        | Inr content \<Rightarrow>
                            emit (Resolve (approved_result e review content filepath)) s3))"

text \<open>\<^verbatim>\<open>openUrl\<close>: the message of the Error it throws, if the launcher exits with a code other
  than 0. Which launcher runs depends on the platform only.\<close>

record exec_result =
  exit_code :: int
  stderr :: string

definition openUrl :: "exec_result \<Rightarrow> string option" where
  "openUrl r =
     (if exit_code r \<noteq> 0
      then Some (if stderr r \<noteq> [] then stderr r
                 else ''Failed to open browser (exit code '' @ show_int (exit_code r) @ '')'')
      else None)"

definition pending_result :: "env \<Rightarrow> string \<Rightarrow> tool_result" where
  "pending_result e content =
     \<lparr>res_text = content, res_plan = plan e, res_status = Pending,
      res_review = None, savedPath = None\<rparr>"

text \<open>The \<^verbatim>\<open>catch\<close> around \<^verbatim>\<open>await openUrl(pi, handle.url)\<close>.\<close>

definition launch_failed :: "env \<Rightarrow> string \<Rightarrow> session \<Rightarrow> session" where
  "launch_failed e message s =
     emit (Resolve (pending_result e (''Failed to open browser: '' @ message))) (cleanup s)"

text \<open>The \<^verbatim>\<open>.catch\<close> of \<^verbatim>\<open>startPlanServer(...)\<close>.\<close>

definition server_failed :: "env \<Rightarrow> string \<Rightarrow> session \<Rightarrow> session" where
  "server_failed e message s =
     emit (Resolve (pending_result e (''Server error: '' @ message))) (cleanup s)"

subsection \<open>The session server (server.ts, startPlanServer)\<close>

record request =
  req_method :: string
  pathname :: string
  body :: string

definition respond :: "nat \<Rightarrow> reply_body \<Rightarrow> session \<Rightarrow> session" where
  "respond c b s = emit (Responded c b) s"

text \<open>
  The handler reads the clock up to three times: \<open>t0\<close> when it starts (the first
  \<^verbatim>\<open>resetTimeout\<close> and every \<^verbatim>\<open>setTimeout\<close>), \<open>t1\<close> in the second \<^verbatim>\<open>resetTimeout\<close> of the
  heartbeat, \<open>t2\<close> when the heartbeat computes what remains.
\<close>

definition handle_get :: "env \<Rightarrow> int \<Rightarrow> int \<Rightarrow> int \<Rightarrow> string \<Rightarrow> session \<Rightarrow> session" where
  "handle_get e t0 t1 t2 path s =
     (let s1 = resetTimeout e t0 s
      in if path = ''/'' \<or> path = ''/index.html''
         then (if \<not> form_file e ''index.html''
               then respond 500 (PlainText ''Form HTML not found'') s1
               else respond 200 FormPage s1)
         else if path = ''/styles.css'' \<and> form_file e ''styles.css''
         then respond 200 Stylesheet s1
         else if path = ''/script.js'' \<and> form_file e ''script.js''
         then respond 200 ClientScript s1
         else if path = ''/heartbeat''
         then (let s2 = resetTimeout e t1 s1
               in respond 200
                    (HeartbeatJson (max 0 (timeout e - (t2 - lastActivity s2) div 1000))) s2)
         else respond 404 (PlainText ''Not Found'') s1)"

definition handle_request :: "env \<Rightarrow> int \<Rightarrow> int \<Rightarrow> int \<Rightarrow> request \<Rightarrow> session \<Rightarrow> session" where
  "handle_request e t0 t1 t2 req s =
     (if req_method req = ''OPTIONS'' then respond 200 NoBody s
      else if req_method req = ''GET'' then handle_get e t0 t1 t2 (pathname req) s
      else if req_method req = ''POST'' \<and> pathname req = ''/submit''
      then (case json_parse e (body req) of
              None \<Rightarrow> respond 400 (ErrorJson ''Invalid JSON'') s
            | Some result \<Rightarrow>
                setTimeout (GraceSubmit result) 500 t0 (respond 200 SuccessJson (clear_idle s)))
      else if req_method req = ''POST'' \<and> pathname req = ''/cancel''
      then setTimeout GraceCancel 500 t0 (respond 200 SuccessJson (clear_idle s))
      else respond 404 (PlainText ''Not Found'') s)"

subsection \<open>Running a session\<close>

text \<open>A timer that comes due runs its callback: \<^verbatim>\<open>onCancel\<close> is \<^verbatim>\<open>() => finish(null)\<close> and
  \<^verbatim>\<open>onSubmit\<close> is \<^verbatim>\<open>finish\<close>.\<close>

definition fire :: "env \<Rightarrow> timer \<Rightarrow> session \<Rightarrow> session" where
  "fire e tm s =
     (let s1 = s\<lparr>timers := filter (\<lambda>t. tid t \<noteq> tid tm) (timers s)\<rparr>;
          now = date_at e (due tm)
      in case act tm of
           IdleTimeout \<Rightarrow> finish e now (Plain Null) s1
         | GraceSubmit result \<Rightarrow> finish e now result s1
         | GraceCancel \<Rightarrow> finish e now (Plain Null) s1)"

text \<open>Time passes up to \<open>t\<close>: the timers due by then run in the order they are due, those
  set earlier first, unless an earlier callback has cleared them.\<close>

definition advance :: "env \<Rightarrow> int \<Rightarrow> session \<Rightarrow> session" where
  "advance e t s =
     foldl (\<lambda>st tm. if tid tm \<in> set (map tid (timers st)) then fire e tm st else st) s
       (sort_key due (filter (\<lambda>tm. due tm \<le> t) (timers s)))"

datatype event =
  Started int
  | Opened int exec_result
  | Failed int string
  | Request int int int request
  | Abort int
  | Elapse int

fun step :: "env \<Rightarrow> event \<Rightarrow> session \<Rightarrow> session" where
  "step e (Started t) s = (advance e t s)\<lparr>server := True\<rparr>"
| "step e (Opened t r) s =
     (let s1 = advance e t s
      in case openUrl r of None \<Rightarrow> s1 | Some message \<Rightarrow> launch_failed e message s1)"
| "step e (Failed t message) s = server_failed e message (advance e t s)"
| "step e (Request t0 t1 t2 req) s =
     (let s1 = advance e t0 s
      in if listening s1 then handle_request e t0 t1 t2 req s1 else s1)"
| "step e (Abort t) s =
     (let s1 = advance e t s
      in if abort_listener s1
         then finish e (date_at e t) (Plain Null) (s1\<lparr>abort_listener := False\<rparr>)
         else s1)"
| "step e (Elapse t) s = advance e t s"

definition run :: "env \<Rightarrow> event list \<Rightarrow> session \<Rightarrow> session" where
  "run e evs s = foldl (\<lambda>st ev. step e ev st) s evs"

text \<open>The session when \<^verbatim>\<open>execute\<close> has registered the abort listener and called
  \<^verbatim>\<open>startPlanServer\<close> at time \<open>now\<close>: the idle timer runs, the handle is not yet delivered.\<close>

definition start :: "env \<Rightarrow> bool \<Rightarrow> int \<Rightarrow> session" where
  "start e dir_exists now =
     resetTimeout e now
       \<lparr>timeoutId = None, lastActivity = now, timers = [], fresh = 0, listening = True,
        server = False, resolved = False, abort_listener = True,
        plans_dir_exists = dir_exists, trace = []\<rparr>"

text \<open>What an observer reads off the trace.\<close>

definition resolutions :: "session \<Rightarrow> tool_result list" where
  "resolutions s = concat (map (\<lambda>x. case x of Resolve r \<Rightarrow> [r] | _ \<Rightarrow> []) (trace s))"

definition files_written :: "session \<Rightarrow> (string \<times> string) list" where
  "files_written s = concat (map (\<lambda>x. case x of WriteFile p c \<Rightarrow> [(p, c)] | _ \<Rightarrow> []) (trace s))"

definition closes :: "session \<Rightarrow> nat" where
  "closes s = length (filter (\<lambda>x. x = ServerClose) (trace s))"

section \<open>The proposal generator (index.ts, generatePlan)\<close>

text \<open>
  \<^verbatim>\<open>doGenerate\<close> joins the text parts of the model's response and looks for the payload in
  two steps. \<^verbatim>\<open>JSON.parse\<close> belongs to the runtime and is a parameter \<open>parse\<close>, \<open>None\<close> when
  it throws; what it returns is cast to the plan type unchecked, so the parsed value is
  left abstract.
\<close>

datatype content_part = TextPart string | OtherPart

record response =
  stopReason :: string
  content :: "content_part list"

definition response_text :: "response \<Rightarrow> string" where
  "response_text r =
     join nl (concat (map (\<lambda>c. case c of TextPart t \<Rightarrow> [t] | OtherPart \<Rightarrow> []) (content r)))"

definition fence :: string where
  "fence = ''```''"

text \<open>
  \<^verbatim>\<open>text.match(/```(?:json)?\s*([\s\S]*?)```/)\<close>, the captured group. The match starts at
  the first fence, skips \<^verbatim>\<open>json\<close> if it follows and then all white space, and captures up
  to the next fence. Backtracking finds nothing else: neither \<^verbatim>\<open>json\<close> nor white space
  holds a backquote, so a closing fence that follows a shorter skip follows the longest
  one too, and a later opening fence has no closing fence the first one lacks.
\<close>

definition fence_match :: "string \<Rightarrow> string option" where
  "fence_match t =
     (case index_of fence t of
        None \<Rightarrow> None
      | Some i \<Rightarrow>
          (let rest = drop (i + 3) t;
               rest1 = (if starts_with ''json'' rest then drop 4 rest else rest);
               rest2 = dropWhile is_space rest1
           in case index_of fence rest2 of
                None \<Rightarrow> None
              | Some j \<Rightarrow> Some (take j rest2)))"

text \<open>\<^verbatim>\<open>text.match(/\{[\s\S]*\}/)\<close>: from the first opening brace to the last closing brace
  after it.\<close>

definition brace_match :: "string \<Rightarrow> string option" where
  "brace_match t =
     (case dropWhile (\<lambda>c. c \<noteq> CHR ''{'') t of
        [] \<Rightarrow> None
      | c # inner \<Rightarrow>
          if CHR ''}'' \<in> set inner
          then Some (c # rev (dropWhile (\<lambda>c. c \<noteq> CHR ''}'') (rev inner)))
          else None)"

definition trim :: "string \<Rightarrow> string" where
  "trim s = rev (dropWhile is_space (rev (dropWhile is_space s)))"

definition extract_json :: "(string \<Rightarrow> 'v option) \<Rightarrow> string \<Rightarrow> 'v option" where
  "extract_json parse t =
     (let jsonStr = (case fence_match t of Some captured \<Rightarrow> captured | None \<Rightarrow> t)
      in case parse (trim jsonStr) of
           Some v \<Rightarrow> Some v
         | None \<Rightarrow> (case brace_match t of Some span \<Rightarrow> parse span | None \<Rightarrow> None))"

definition doGenerate :: "(string \<Rightarrow> 'v option) \<Rightarrow> response \<Rightarrow> 'v option" where
  "doGenerate parse r =
     (if stopReason r = ''aborted'' then None else extract_json parse (response_text r))"

text \<open>\<^verbatim>\<open>generatePlan\<close>: no model selected, or the call to the service rejected or was aborted
  by the user (\<open>None\<close> for the response), gives null.\<close>

definition generatePlan :: "(string \<Rightarrow> 'v option) \<Rightarrow> bool \<Rightarrow> response option \<Rightarrow> 'v option" where
  "generatePlan parse has_model r =
     (if \<not> has_model then None
      else case r of None \<Rightarrow> None | Some resp \<Rightarrow> doGenerate parse resp)"

section \<open>Notions the properties are stated with\<close>

text \<open>A series of calls of the guard, each with the date it reads and its argument.\<close>

definition attempts :: "env \<Rightarrow> (js_date \<times> payload) list \<Rightarrow> session \<Rightarrow> session" where
  "attempts e calls s = foldl (\<lambda>st (now, review). finish e now review st) s calls"

text \<open>The file the approval branch of \<^verbatim>\<open>finish\<close> writes for a review: none when the renderer
  throws.\<close>

definition artifact :: "env \<Rightarrow> js_date \<Rightarrow> payload \<Rightarrow> (string \<times> string) list" where
  "artifact e now review =
     (case planToMarkdown (plan e) (Some review) (toISOString now) of
        Inl err \<Rightarrow> []
      | Inr markdown \<Rightarrow> [(plans_dir e @ ''/'' @ plan_filename now (title (plan e)), markdown)])"

text \<open>Nothing has been resolved, written or closed yet; and each at most once.\<close>

definition quiet :: "session \<Rightarrow> bool" where
  "quiet s = (resolutions s = [] \<and> files_written s = [] \<and> closes s = 0)"

definition settled_once :: "session \<Rightarrow> bool" where
  "settled_once s =
     (length (resolutions s) \<le> 1 \<and> length (files_written s) \<le> 1 \<and> closes s \<le> 1)"

definition guard_inv :: "session \<Rightarrow> bool" where
  "guard_inv s = (settled_once s \<and> (resolved s \<or> quiet s))"

text \<open>In \<open>s'\<close> the guard is set and nothing has been resolved, written or closed since \<open>s\<close>.\<close>

definition same_outcome :: "session \<Rightarrow> session \<Rightarrow> bool" where
  "same_outcome s s' =
     (resolved s' \<and> resolutions s' = resolutions s \<and> files_written s' = files_written s \<and>
      closes s' = closes s)"

text \<open>The events of a session whose browser launch and server start succeed: requests,
  the abort signal and the passing of time, in any order and at any time.\<close>

fun benign :: "event \<Rightarrow> bool" where
  "benign (Started t) = True"
| "benign (Opened t r) = (openUrl r = None)"
| "benign (Failed t message) = False"
| "benign (Request t0 t1 t2 req) = True"
| "benign (Abort t) = True"
| "benign (Elapse t) = True"

text \<open>
  The bookkeeping of the timers: identifiers below \<open>fresh\<close> are the ones handed out, the
  idle timer is the one \<open>timeoutId\<close> names, and while it is pending it is due one timeout
  after \<open>lastActivity\<close>.
\<close>

definition timer_ok :: "env \<Rightarrow> session \<Rightarrow> timer \<Rightarrow> bool" where
  "timer_ok e s tm =
     (tid tm < fresh s \<and>
      (act tm = IdleTimeout) = (timeoutId s = Some (tid tm)) \<and>
      (if act tm = IdleTimeout
       then due tm = lastActivity s + timer_delay (timeout e * 1000) else True))"

definition session_ok :: "env \<Rightarrow> session \<Rightarrow> bool" where
  "session_ok e s =
     (list_all (timer_ok e s) (timers s) \<and>
      (case timeoutId s of None \<Rightarrow> True | Some i \<Rightarrow> i < fresh s))"

text \<open>No idle timer is pending.\<close>

definition idle_stopped :: "session \<Rightarrow> bool" where
  "idle_stopped s = (idle_deadline s = None \<and> list_all (\<lambda>tm. act tm \<noteq> IdleTimeout) (timers s))"


section \<open>Concrete inputs\<close>

definition demo_phase1 :: PlanPhase where
  "demo_phase1 =
     \<lparr>number = 1, name = ''Core'', description = ''Build'', tasks = [''t1''],
      successCriteria = \<lparr>automated = [''test''], manual = []\<rparr>,
      implementationNotes = None\<rparr>"

definition demo_phase2 :: PlanPhase where
  "demo_phase2 =
     \<lparr>number = 2, name = ''Docs'', description = ''Write'', tasks = [],
      successCriteria = \<lparr>automated = [], manual = [''look'']\<rparr>,
      implementationNotes = Some ''slow''\<rparr>"

definition demo_plan :: ImplementationPlan where
  "demo_plan =
     \<lparr>title = ''Add  Rate limiting!'', overview = ''ov'', currentState = None,
      desiredEndState = None, outOfScope = None, phases = [demo_phase1, demo_phase2],
      testingStrategy = None, references = None\<rparr>"

definition demo_review :: PlanReviewResult where
  "demo_review =
     \<lparr>decision = Approve, selectedPhases = [1], priority = ''medium'', approach = ''balanced'',
      requirements = [], constraints = [], review_notes = ''''\<rparr>"

definition empty_selection :: PlanReviewResult where
  "empty_selection = demo_review\<lparr>selectedPhases := []\<rparr>"

definition ill_shaped :: payload where
  "ill_shaped = JObj [(''decision'', JStr ''approve''), (''selectedPhases'', JNum 5)]"

definition demo_date :: js_date where
  "demo_date =
     \<lparr>toISOString = ''2026-01-02T03:04:05.000Z'', toTimeString = ''04:04:05 GMT+0100''\<rparr>"

text \<open>A runtime whose \<^verbatim>\<open>JSON.parse\<close> knows three bodies.\<close>

definition demo_env :: env where
  "demo_env =
     \<lparr>plan = demo_plan, timeout = 600,
      json_parse = (\<lambda>b. if b = ''A'' then Some (review_js demo_review)
                          else if b = ''B'' then Some ill_shaped
                          else if b = ''null'' then Some (Plain Null) else None),
      form_file = (\<lambda>f. True), plans_dir = ''/p'', date_at = (\<lambda>t. demo_date)\<rparr>"

definition launcher_ok :: exec_result where
  "launcher_ok = \<lparr>exit_code = 0, stderr = ''''\<rparr>"

definition launcher_broken :: exec_result where
  "launcher_broken = \<lparr>exit_code = 1, stderr = ''''\<rparr>"

definition post_submit :: "string \<Rightarrow> request" where
  "post_submit b = \<lparr>req_method = ''POST'', pathname = ''/submit'', body = b\<rparr>"

definition post_cancel :: request where
  "post_cancel = \<lparr>req_method = ''POST'', pathname = ''/cancel'', body = ''''\<rparr>"

definition get_path :: "string \<Rightarrow> request" where
  "get_path p = \<lparr>req_method = ''GET'', pathname = p, body = ''''\<rparr>"

text \<open>A session whose server has started and whose browser has opened.\<close>

definition demo_session :: session where
  "demo_session = run demo_env [Started 1, Opened 2 launcher_ok] (start demo_env True 0)"



section \<open>What each operation leaves alone\<close>

lemma obs_emit:
  "resolutions (emit x s) = resolutions s @ (case x of Resolve r \<Rightarrow> [r] | _ \<Rightarrow> [])"
  "files_written (emit x s) = files_written s @ (case x of WriteFile p c \<Rightarrow> [(p, c)] | _ \<Rightarrow> [])"
  "closes (emit x s) = closes s + (if x = ServerClose then 1 else 0)"
  "resolved (emit x s) = resolved s"
  "timers (emit x s) = timers s"
  "server (emit x s) = server s"
  "listening (emit x s) = listening s"
  "timeoutId (emit x s) = timeoutId s"
  "lastActivity (emit x s) = lastActivity s"
  "fresh (emit x s) = fresh s"
  "abort_listener (emit x s) = abort_listener s"
  "trace (emit x s) = trace s @ [x]"
  by (simp_all add: emit_def resolutions_def files_written_def closes_def)

lemma obs_frame:
  "resolutions (s\<lparr>timers := ts\<rparr>) = resolutions s"
  "files_written (s\<lparr>timers := ts\<rparr>) = files_written s"
  "closes (s\<lparr>timers := ts\<rparr>) = closes s"
  "resolutions (s\<lparr>resolved := b\<rparr>) = resolutions s"
  "files_written (s\<lparr>resolved := b\<rparr>) = files_written s"
  "closes (s\<lparr>resolved := b\<rparr>) = closes s"
  "resolutions (s\<lparr>server := b\<rparr>) = resolutions s"
  "files_written (s\<lparr>server := b\<rparr>) = files_written s"
  "closes (s\<lparr>server := b\<rparr>) = closes s"
  "resolutions (s\<lparr>listening := b\<rparr>) = resolutions s"
  "files_written (s\<lparr>listening := b\<rparr>) = files_written s"
  "closes (s\<lparr>listening := b\<rparr>) = closes s"
  "resolutions (s\<lparr>abort_listener := b\<rparr>) = resolutions s"
  "files_written (s\<lparr>abort_listener := b\<rparr>) = files_written s"
  "closes (s\<lparr>abort_listener := b\<rparr>) = closes s"
  "resolutions (s\<lparr>plans_dir_exists := b\<rparr>) = resolutions s"
  "files_written (s\<lparr>plans_dir_exists := b\<rparr>) = files_written s"
  "closes (s\<lparr>plans_dir_exists := b\<rparr>) = closes s"
  "resolutions (s\<lparr>fresh := n\<rparr>) = resolutions s"
  "files_written (s\<lparr>fresh := n\<rparr>) = files_written s"
  "closes (s\<lparr>fresh := n\<rparr>) = closes s"
  "resolutions (s\<lparr>timeoutId := i\<rparr>) = resolutions s"
  "files_written (s\<lparr>timeoutId := i\<rparr>) = files_written s"
  "closes (s\<lparr>timeoutId := i\<rparr>) = closes s"
  "resolutions (s\<lparr>lastActivity := t\<rparr>) = resolutions s"
  "files_written (s\<lparr>lastActivity := t\<rparr>) = files_written s"
  "closes (s\<lparr>lastActivity := t\<rparr>) = closes s"
  by (simp_all add: resolutions_def files_written_def closes_def)

lemma clear_idle_frame:
  "resolutions (clear_idle s) = resolutions s"
  "files_written (clear_idle s) = files_written s"
  "closes (clear_idle s) = closes s"
  "resolved (clear_idle s) = resolved s"
  "server (clear_idle s) = server s"
  "trace (clear_idle s) = trace s"
  "fresh (clear_idle s) = fresh s"
  "timeoutId (clear_idle s) = timeoutId s"
  "lastActivity (clear_idle s) = lastActivity s"
  by (simp_all add: clear_idle_def clearTimeout_def obs_frame split: option.splits)

lemma setTimeout_frame:
  "resolutions (setTimeout a ms now s) = resolutions s"
  "files_written (setTimeout a ms now s) = files_written s"
  "closes (setTimeout a ms now s) = closes s"
  "resolved (setTimeout a ms now s) = resolved s"
  "trace (setTimeout a ms now s) = trace s"
  "timeoutId (setTimeout a ms now s) = timeoutId s"
  "lastActivity (setTimeout a ms now s) = lastActivity s"
  by (simp_all add: setTimeout_def resolutions_def files_written_def closes_def)

lemma resetTimeout_frame:
  "resolutions (resetTimeout e now s) = resolutions s"
  "files_written (resetTimeout e now s) = files_written s"
  "closes (resetTimeout e now s) = closes s"
  "resolved (resetTimeout e now s) = resolved s"
  "trace (resetTimeout e now s) = trace s"
  "lastActivity (resetTimeout e now s) = now"
  by (simp_all add: resetTimeout_def Let_def setTimeout_frame clear_idle_frame obs_frame)

lemma cleanup_obs:
  "resolutions (cleanup s) = resolutions s"
  "files_written (cleanup s) = files_written s"
  "closes (cleanup s) = closes s + (if server s then 1 else 0)"
  "resolved (cleanup s) = resolved s"
  by (simp_all add: cleanup_def close_server_def obs_emit obs_frame clear_idle_frame)

lemma ensurePlansDir_obs:
  "resolutions (ensurePlansDir e s) = resolutions s"
  "files_written (ensurePlansDir e s) = files_written s"
  "closes (ensurePlansDir e s) = closes s"
  "resolved (ensurePlansDir e s) = resolved s"
  by (simp_all add: ensurePlansDir_def obs_emit obs_frame)

lemma handle_request_obs:
  "resolutions (handle_request e t0 t1 t2 req s) = resolutions s"
  "files_written (handle_request e t0 t1 t2 req s) = files_written s"
  "closes (handle_request e t0 t1 t2 req s) = closes s"
  "resolved (handle_request e t0 t1 t2 req s) = resolved s"
  by (simp_all add: handle_request_def handle_get_def respond_def Let_def obs_emit
      setTimeout_frame clear_idle_frame resetTimeout_frame split: option.splits)

section \<open>The one-shot guard\<close>

lemma finish_resolved: "resolved s \<Longrightarrow> finish e d p s = s"
  by (simp add: finish_def)

lemma finish_sets_resolved: "resolved (finish e d p s)"
  by (simp add: finish_def Let_def obs_emit cleanup_obs ensurePlansDir_obs split: sum.splits)

lemma attempts_resolved: "resolved s \<Longrightarrow> attempts e calls s = s"
  unfolding attempts_def
  by (induction calls) (simp_all add: finish_resolved split: prod.splits)

lemma attempts_Cons: "attempts e ((d, p) # calls) s = attempts e calls (finish e d p s)"
  by (simp add: attempts_def)

lemma finish_guard_inv: "guard_inv s \<Longrightarrow> guard_inv (finish e d p s)"
proof (cases "resolved s")
  case True
  assume "guard_inv s"
  with True show ?thesis by (simp add: finish_resolved)
next
  case False
  assume "guard_inv s"
  with False have q: "quiet s" by (simp add: guard_inv_def)
  have "settled_once (finish e d p s)"
    using False q
    by (simp add: finish_def Let_def quiet_def settled_once_def obs_emit obs_frame
        cleanup_obs ensurePlansDir_obs split: sum.splits)
  then show ?thesis by (simp add: guard_inv_def finish_sets_resolved)
qed

lemma handle_request_guard_inv:
  "guard_inv s \<Longrightarrow> guard_inv (handle_request e t0 t1 t2 req s)"
  by (simp add: guard_inv_def quiet_def settled_once_def handle_request_obs)

lemma fire_guard_inv: "guard_inv s \<Longrightarrow> guard_inv (fire e tm s)"
proof -
  assume g: "guard_inv s"
  have "guard_inv (s\<lparr>timers := filter (\<lambda>t. tid t \<noteq> tid tm) (timers s)\<rparr>)"
    using g by (simp add: guard_inv_def quiet_def settled_once_def obs_frame)
  then show ?thesis
    by (simp add: fire_def Let_def finish_guard_inv split: timer_action.splits)
qed

lemma fold_fire_guard_inv:
  "guard_inv s \<Longrightarrow>
   guard_inv (foldl (\<lambda>st tm. if tid tm \<in> set (map tid (timers st)) then fire e tm st else st)
                s tms)"
  by (induction tms arbitrary: s) (simp_all add: fire_guard_inv)

lemma advance_guard_inv: "guard_inv s \<Longrightarrow> guard_inv (advance e t s)"
  unfolding advance_def by (rule fold_fire_guard_inv)

lemma flag_guard_inv:
  "guard_inv s \<Longrightarrow> guard_inv (s\<lparr>server := b\<rparr>)"
  "guard_inv s \<Longrightarrow> guard_inv (s\<lparr>abort_listener := b\<rparr>)"
  by (simp_all add: guard_inv_def quiet_def settled_once_def obs_frame)

lemma step_guard_inv: "benign ev \<Longrightarrow> guard_inv s \<Longrightarrow> guard_inv (step e ev s)"
  by (cases ev)
     (simp_all add: Let_def advance_guard_inv handle_request_guard_inv finish_guard_inv
        flag_guard_inv)

lemma run_guard_inv: "list_all benign evs \<Longrightarrow> guard_inv s \<Longrightarrow> guard_inv (run e evs s)"
  unfolding run_def by (induction evs arbitrary: s) (simp_all add: step_guard_inv)

lemma start_guard_inv: "guard_inv (start e b t)"
  by (simp add: start_def guard_inv_def quiet_def settled_once_def resetTimeout_frame)
     (simp add: resolutions_def files_written_def closes_def)

lemma fire_same_outcome: "same_outcome s s' \<Longrightarrow> same_outcome s (fire e tm s')"
proof -
  assume a: "same_outcome s s'"
  let ?s1 = "s'\<lparr>timers := filter (\<lambda>t. tid t \<noteq> tid tm) (timers s')\<rparr>"
  have r: "resolved ?s1" using a by (simp add: same_outcome_def)
  have "fire e tm s' = ?s1"
    by (simp add: fire_def Let_def finish_resolved [OF r] split: timer_action.splits)
  then show ?thesis using a by (simp add: same_outcome_def obs_frame)
qed

lemma fold_fire_same_outcome:
  "same_outcome s s' \<Longrightarrow>
   same_outcome s
     (foldl (\<lambda>st tm. if tid tm \<in> set (map tid (timers st)) then fire e tm st else st) s' tms)"
  by (induction tms arbitrary: s') (simp_all add: fire_same_outcome)

lemma advance_same_outcome: "same_outcome s s' \<Longrightarrow> same_outcome s (advance e t s')"
  unfolding advance_def by (rule fold_fire_same_outcome)

lemma step_same_outcome:
  assumes "benign ev" and "same_outcome s s'"
  shows "same_outcome s (step e ev s')"
proof -
  have adv: "\<And>t. same_outcome s (advance e t s')"
    using assms(2) by (rule advance_same_outcome)
  show ?thesis
  proof (cases ev)
    case (Started t)
    then show ?thesis using adv [of t] by (simp add: same_outcome_def obs_frame)
  next
    case (Opened t r)
    then show ?thesis using adv [of t] assms(1) by simp
  next
    case (Failed t m)
    then show ?thesis using assms(1) by simp
  next
    case (Request t0 t1 t2 req)
    then show ?thesis using adv [of t0]
      by (simp add: Let_def same_outcome_def handle_request_obs)
  next
    case (Abort t)
    have "resolved ((advance e t s')\<lparr>abort_listener := False\<rparr>)"
      using adv [of t] by (simp add: same_outcome_def)
    then show ?thesis using Abort adv [of t]
      by (simp add: Let_def finish_resolved same_outcome_def obs_frame)
  next
    case (Elapse t)
    then show ?thesis using adv [of t] by simp
  qed
qed

lemma run_same_outcome:
  "list_all benign evs \<Longrightarrow> same_outcome s s' \<Longrightarrow> same_outcome s (run e evs s')"
  unfolding run_def by (induction evs arbitrary: s') (simp_all add: step_same_outcome)

section \<open>The renderer on a well-typed review\<close>

lemma phases_loop_array:
  "phases_loop (JArr xs) ps lines =
     Inr (lines @ concat (map (\<lambda>ph. phase_block ph (JNum (number ph) \<in> set xs)) ps))"
  by (induction ps arbitrary: lines) (simp_all add: render_phase_def)

lemma prop_get_review_js:
  "prop_get (review_js r) ''decision'' = JStr (decision_str (decision r))"
  "prop_get (review_js r) ''selectedPhases'' = JArr (map JNum (selectedPhases r))"
  "prop_get (review_js r) ''priority'' = JStr (priority r)"
  "prop_get (review_js r) ''approach'' = JStr (approach r)"
  "prop_get (review_js r) ''requirements'' = JArr (map JStr (requirements r))"
  "prop_get (review_js r) ''constraints'' = JArr (map JStr (constraints r))"
  "prop_get (review_js r) ''notes'' = JStr (review_notes r)"
  by (simp_all add: review_js_def)

lemma effective_phases_typed:
  "effective_phases p (Some (review_js r)) = JArr (map JNum (selectedPhases r))"
  by (simp add: effective_phases_def opt_get_def js_or_def prop_get_review_js)

lemma JNum_image_mem: "(JNum n \<in> JNum ` S) = (n \<in> S)"
  by auto

lemma markdown_lines_typed:
  "markdown_lines p (Some (review_js r)) g =
     Inr (plan_head p (Some (review_js r)) @
          concat (map (\<lambda>ph. phase_block ph (number ph \<in> set (selectedPhases r))) (phases p)) @
          plan_tail p (Some (review_js r)) g)"
  by (simp add: markdown_lines_def effective_phases_typed phases_loop_array JNum_image_mem)

lemma planToMarkdown_typed: "\<exists>markdown. planToMarkdown p (Some (review_js r)) g = Inr markdown"
  by (simp add: planToMarkdown_def markdown_lines_typed)

lemma filter_selected_array:
  "filter_selected (JArr xs) ps = Inr (filter (\<lambda>ph. JNum (number ph) \<in> set xs) ps)"
  by (induction ps) simp_all

lemma summary_list_array: "\<exists>t. summary_list heading (JArr xs) = Inr t"
  by (simp add: summary_list_def)

lemma summary_typed: "\<exists>content. summary p (review_js r) path = Inr content"
proof -
  obtain reqs where r: "summary_list ''**Additional Requirements:**''
      (prop_get (review_js r) ''requirements'') = Inr reqs"
    using summary_list_array by (auto simp add: prop_get_review_js)
  obtain cons where c: "summary_list ''**Constraints:**''
      (prop_get (review_js r) ''constraints'') = Inr cons"
    using summary_list_array by (auto simp add: prop_get_review_js)
  show ?thesis
    by (simp add: summary_def Let_def effective_phases_typed filter_selected_array r c)
qed

lemma decision_str_reject: "(decision_str d = ''reject'') = (d = Reject)"
  by (cases d) simp_all

lemma truthy_review_js: "truthy_payload (review_js r)"
  by (simp add: review_js_def)

lemma artifact_typed:
  "\<exists>markdown. artifact e d (review_js r) =
     [(plans_dir e @ ''/'' @ plan_filename d (title (plan e)), markdown)]"
proof -
  obtain m where "planToMarkdown (plan e) (Some (review_js r)) (toISOString d) = Inr m"
    using planToMarkdown_typed by blast
  then show ?thesis by (simp add: artifact_def)
qed

text \<open>What the first call of the guard does to the files, whatever its argument.\<close>

lemma finish_files:
  "\<not> resolved s \<Longrightarrow>
   files_written (finish e d p s) =
     files_written s @
     (if \<not> truthy_payload p \<or> prop_get p ''decision'' = JStr ''reject'' then []
      else artifact e d p)"
  by (simp add: finish_def Let_def artifact_def obs_emit obs_frame cleanup_obs ensurePlansDir_obs
      split: sum.splits)

lemma finish_null:
  "\<not> resolved s \<Longrightarrow>
   resolutions (finish e d (Plain Null) s) = resolutions s @ [rejected_result e (Plain Null)]"
  by (simp add: finish_def Let_def obs_emit obs_frame cleanup_obs)

lemma finish_typed:
  assumes "\<not> resolved s"
  shows "\<exists>res. resolutions (finish e d (review_js x) s) = resolutions s @ [res] \<and>
           res_review res = Some (review_js x) \<and> res_plan res = plan e \<and>
           res_status res = (if decision x = Reject then Rejected else Approved)"
proof (cases "decision x = Reject")
  case True
  then show ?thesis using assms
    by (simp add: finish_def Let_def obs_emit obs_frame cleanup_obs prop_get_review_js
        rejected_result_def)
next
  case False
  obtain m where m: "planToMarkdown (plan e) (Some (review_js x)) (toISOString d) = Inr m"
    using planToMarkdown_typed by blast
  obtain c where c: "summary (plan e) (review_js x)
      (plans_dir e @ ''/'' @ plan_filename d (title (plan e))) = Inr c"
    using summary_typed by blast
  show ?thesis using assms False m c
    by (simp add: finish_def Let_def obs_emit obs_frame cleanup_obs ensurePlansDir_obs
        prop_get_review_js decision_str_reject truthy_review_js approved_result_def)
qed

lemma slug_chars: "list_all slug_char (slug t)"
  by (simp add: slug_def list_all_iff)

section \<open>The four sources of termination\<close>

text \<open>Each of the four sources ends in a call of the guard: submit with the parsed body, the
  others with null.\<close>

lemma sources_call_guard:
  "fire e \<lparr>tid = i, due = t, act = GraceSubmit v\<rparr> s =
     finish e (date_at e t) v (s\<lparr>timers := filter (\<lambda>x. tid x \<noteq> i) (timers s)\<rparr>)"
  "fire e \<lparr>tid = i, due = t, act = GraceCancel\<rparr> s =
     finish e (date_at e t) (Plain Null) (s\<lparr>timers := filter (\<lambda>x. tid x \<noteq> i) (timers s)\<rparr>)"
  "fire e \<lparr>tid = i, due = t, act = IdleTimeout\<rparr> s =
     finish e (date_at e t) (Plain Null) (s\<lparr>timers := filter (\<lambda>x. tid x \<noteq> i) (timers s)\<rparr>)"
  "abort_listener (advance e t s) \<Longrightarrow>
   step e (Abort t) s =
     finish e (date_at e t) (Plain Null) ((advance e t s)\<lparr>abort_listener := False\<rparr>)"
  by (simp_all add: fire_def Let_def)

section \<open>Exactly-once resolution\<close>

text \<open>
  C1, as the code has it. The first call that reaches the guard \<^verbatim>\<open>finish\<close> resolves the
  session exactly once, with the review that call carries (null for cancel, idle timeout
  and abort): the result holds that review and is approved or rejected by its decision.
  Every later call of the guard leaves the session as it is, and so does every later
  event of the session, whenever it comes: nothing more is resolved, written or closed.
  From the start of a session on, over every series of requests, abort signals and
  timer runs, at most one resolution, one artifact and one teardown happen. The request
  that arrives first is not always the call that reaches the guard first: submit and
  cancel reach it 500 ms after their request.
\<close>

theorem first_to_reach_guard_wins:
  "(\<not> resolved s \<longrightarrow>
      (\<exists>res. resolutions (finish e d (review_arg r) s) = resolutions s @ [res] \<and>
             res_review res = Some (review_arg r) \<and>
             res_status res =
               (case r of None \<Rightarrow> Rejected
                | Some x \<Rightarrow> if decision x = Reject then Rejected else Approved)) \<and>
      attempts e later (finish e d (review_arg r) s) = finish e d (review_arg r) s \<and>
      (list_all benign evs \<longrightarrow>
         same_outcome (finish e d (review_arg r) s) (run e evs (finish e d (review_arg r) s)))) \<and>
   (list_all benign evs \<longrightarrow> settled_once (run e evs (start e b t)))"
proof -
  let ?s' = "finish e d (review_arg r) s"
  have r': "resolved ?s'" by (rule finish_sets_resolved)
  have first: "\<exists>res. resolutions ?s' = resolutions s @ [res] \<and>
             res_review res = Some (review_arg r) \<and>
             res_status res =
               (case r of None \<Rightarrow> Rejected
                | Some x \<Rightarrow> if decision x = Reject then Rejected else Approved)"
    if u: "\<not> resolved s"
  proof (cases r)
    case None
    then show ?thesis using finish_null [OF u, of e d]
      by (simp add: review_arg_def rejected_result_def)
  next
    case (Some x)
    then show ?thesis using finish_typed [OF u, of e d x] by (auto simp add: review_arg_def)
  qed
  have later: "attempts e later ?s' = ?s'"
    using r' by (rule attempts_resolved)
  have same: "same_outcome ?s' ?s'"
    using r' by (simp add: same_outcome_def)
  have after: "same_outcome ?s' (run e evs ?s')" if "list_all benign evs"
    using that same by (rule run_same_outcome)
  have once: "settled_once (run e evs (start e b t))" if "list_all benign evs"
    using run_guard_inv [OF that start_guard_inv] by (simp add: guard_inv_def)
  show ?thesis using first later after once by blast
qed

lemma demo_session_unresolved: "\<not> resolved demo_session"
  by code_simp

theorem first_to_reach_guard_wins_witness:
  "\<not> resolved demo_session \<and>
   list_all benign [Request 10 10 10 post_cancel, Abort 20, Elapse 700000] \<and>
   (\<exists>res. resolutions (finish demo_env demo_date (review_arg (Some demo_review)) demo_session) =
            resolutions demo_session @ [res] \<and>
          res_review res = Some (review_arg (Some demo_review)) \<and>
          res_status res = Approved) \<and>
   attempts demo_env [(demo_date, Plain Null)]
      (finish demo_env demo_date (review_arg (Some demo_review)) demo_session) =
     finish demo_env demo_date (review_arg (Some demo_review)) demo_session \<and>
   same_outcome (finish demo_env demo_date (review_arg (Some demo_review)) demo_session)
     (run demo_env [Request 10 10 10 post_cancel, Abort 20, Elapse 700000]
        (finish demo_env demo_date (review_arg (Some demo_review)) demo_session)) \<and>
   settled_once
     (run demo_env [Request 10 10 10 post_cancel, Abort 20, Elapse 700000]
        (start demo_env True 0))"
proof -
  have u: "\<not> resolved demo_session" by (rule demo_session_unresolved)
  have b: "list_all benign [Request 10 10 10 post_cancel, Abort 20, Elapse 700000]" by simp
  have a: "decision demo_review = Approve" by (simp add: demo_review_def)
  show ?thesis
    using u b a
      first_to_reach_guard_wins [where s = demo_session and e = demo_env and d = demo_date
        and r = "Some demo_review" and later = "[(demo_date, Plain Null)]"
        and evs = "[Request 10 10 10 post_cancel, Abort 20, Elapse 700000]"
        and b = True and t = 0]
    by simp
qed

text \<open>
  C1 as stated fails. A submit with an approving decision arrives at 1000 ms and is
  acknowledged; the abort signal follows at 1100 ms, inside the grace delay. The session
  resolves with the abort's null and writes no artifact, although the submit fired first.
\<close>

theorem submit_then_abort_counterexample:
  "json_parse demo_env ''A'' = Some (review_js demo_review) \<and>
   decision demo_review = Approve \<and>
   resolutions
     (run demo_env [Request 1000 1000 1000 (post_submit ''A''), Abort 1100, Elapse 2000]
        demo_session) = [rejected_result demo_env (Plain Null)] \<and>
   files_written
     (run demo_env [Request 1000 1000 1000 (post_submit ''A''), Abort 1100, Elapse 2000]
        demo_session) = []"
  by code_simp

section \<open>The phases in the artifact\<close>










text \<open>
  C2 fails on the code: an empty array is truthy, so \<^verbatim>\<open>review.selectedPhases || ...\<close> keeps
  it. With no phase selected the effective selection is empty, every phase is rendered
  as excluded and the summary lists none.
\<close>

theorem empty_selection_excludes_all:
  "selectedPhases r = [] \<longrightarrow>
     effective_phases p (Some (review_js r)) = JArr [] \<and>
     markdown_lines p (Some (review_js r)) g =
       Inr (plan_head p (Some (review_js r)) @
            concat (map (\<lambda>ph. phase_block ph False) (phases p)) @
            plan_tail p (Some (review_js r)) g) \<and>
     filter_selected (effective_phases p (Some (review_js r))) (phases p) = Inr []"
  by (simp add: effective_phases_typed markdown_lines_typed filter_selected_array)

theorem empty_selection_excludes_all_witness:
  "selectedPhases empty_selection = [] \<and>
   decision empty_selection = Approve \<and>
   effective_phases demo_plan (Some (review_js empty_selection)) = JArr [] \<and>
   markdown_lines demo_plan (Some (review_js empty_selection)) ''now'' =
     Inr (plan_head demo_plan (Some (review_js empty_selection)) @
          concat (map (\<lambda>ph. phase_block ph False) (phases demo_plan)) @
          plan_tail demo_plan (Some (review_js empty_selection)) ''now'') \<and>
   filter_selected (effective_phases demo_plan (Some (review_js empty_selection)))
     (phases demo_plan) = Inr []"
proof -
  have h: "selectedPhases empty_selection = []" "decision empty_selection = Approve"
    by (simp_all add: empty_selection_def demo_review_def)
  show ?thesis
    using h empty_selection_excludes_all [where r = empty_selection and p = demo_plan
        and g = "''now''"]
    by blast
qed

section \<open>When an artifact is written\<close>

lemma slug_char_letters: "slug_char c = (c \<in> set ''abcdefghijklmnopqrstuvwxyz0123456789-'')"
  by (cases c) (auto simp add: slug_char_def Let_def)

lemma attempts_files:
  "\<not> resolved s \<Longrightarrow>
   files_written (attempts e ((d, p) # later) s) = files_written (finish e d p s)"
  by (simp add: attempts_Cons attempts_resolved finish_sets_resolved)

text \<open>
  C9. The first call of the guard writes one file if its review approves or modifies,
  and none if it rejects or is null; later calls write nothing. The file is the rendered
  document, at the plans directory, under the plan id (date and time), a dash, the slug
  of the title and \<^verbatim>\<open>.md\<close>; the slug holds lowercase letters, digits and dashes only.
\<close>

theorem artifact_iff_approval:
  "(\<not> resolved s \<longrightarrow>
      files_written (attempts e ((d, review_arg r) # later) s) =
        files_written s @
        (case r of
           None \<Rightarrow> []
         | Some x \<Rightarrow>
             if decision x = Approve \<or> decision x = Modify
             then artifact e d (review_js x) else [])) \<and>
   (resolved s \<longrightarrow> files_written (attempts e later s) = files_written s) \<and>
   (\<exists>markdown.
      planToMarkdown (plan e) (Some (review_js x)) (toISOString d) = Inr markdown \<and>
      artifact e d (review_js x) =
        [(plans_dir e @ ''/'' @ generatePlanId d @ ''-'' @ slug (title (plan e)) @ ''.md'',
          markdown)]) \<and>
   list_all (\<lambda>c. c \<in> set ''abcdefghijklmnopqrstuvwxyz0123456789-'') (slug t)"
proof -
  have w: "files_written (attempts e ((d, review_arg r) # later) s) =
        files_written s @
        (case r of
           None \<Rightarrow> []
         | Some x \<Rightarrow>
             if decision x = Approve \<or> decision x = Modify
             then artifact e d (review_js x) else [])"
    if u: "\<not> resolved s"
  proof (cases r)
    case None
    then show ?thesis using u
      by (simp add: attempts_files finish_files review_arg_def)
  next
    case (Some x)
    have "(decision x = Approve \<or> decision x = Modify) = (decision x \<noteq> Reject)"
      by (cases "decision x") simp_all
    then show ?thesis using u Some
      by (simp add: attempts_files finish_files review_arg_def prop_get_review_js
          decision_str_reject truthy_review_js)
  qed
  have n: "files_written (attempts e later s) = files_written s" if "resolved s"
    using that by (simp add: attempts_resolved)
  obtain m where m: "planToMarkdown (plan e) (Some (review_js x)) (toISOString d) = Inr m"
    using planToMarkdown_typed by blast
  have a: "artifact e d (review_js x) =
        [(plans_dir e @ ''/'' @ generatePlanId d @ ''-'' @ slug (title (plan e)) @ ''.md'', m)]"
    using m by (simp add: artifact_def plan_filename_def)
  have c: "list_all (\<lambda>c. c \<in> set ''abcdefghijklmnopqrstuvwxyz0123456789-'') (slug t)"
    using slug_chars [of t] by (simp add: slug_char_letters list_all_iff)
  show ?thesis using w n m a c by blast
qed

theorem artifact_iff_approval_witness:
  "\<not> resolved demo_session \<and>
   files_written
     (attempts demo_env [(demo_date, review_arg (Some demo_review)), (demo_date, Plain Null)]
        demo_session) =
     files_written demo_session @ artifact demo_env demo_date (review_js demo_review) \<and>
   files_written (attempts demo_env [(demo_date, review_arg None)] demo_session) =
     files_written demo_session \<and>
   slug (title (plan demo_env)) = ''add-rate-limiting'' \<and>
   map fst (artifact demo_env demo_date (review_js demo_review)) =
     [''/p/2026-01-02-040405-add-rate-limiting.md'']"
proof -
  have u: "\<not> resolved demo_session" by (rule demo_session_unresolved)
  have d: "decision demo_review = Approve" by (simp add: demo_review_def)
  have s: "slug (title (plan demo_env)) = ''add-rate-limiting''" by code_simp
  have g: "generatePlanId demo_date = ''2026-01-02-040405''" by code_simp
  have p: "plans_dir demo_env = ''/p''" by (simp add: demo_env_def)
  have 1: "files_written
     (attempts demo_env [(demo_date, review_arg (Some demo_review)), (demo_date, Plain Null)]
        demo_session) =
     files_written demo_session @ artifact demo_env demo_date (review_js demo_review)"
    using u d
      artifact_iff_approval [where s = demo_session and e = demo_env and d = demo_date
        and r = "Some demo_review" and later = "[(demo_date, Plain Null)]"
        and x = demo_review and t = "[]"]
    by simp
  have 2: "files_written (attempts demo_env [(demo_date, review_arg None)] demo_session) =
     files_written demo_session"
    using u
      artifact_iff_approval [where s = demo_session and e = demo_env and d = demo_date
        and r = None and later = "[]" and x = demo_review and t = "[]"]
    by simp
  obtain m where m: "artifact demo_env demo_date (review_js demo_review) =
      [(plans_dir demo_env @ ''/'' @ generatePlanId demo_date @ ''-'' @
          slug (title (plan demo_env)) @ ''.md'', m)]"
    using artifact_iff_approval [where s = demo_session and e = demo_env and d = demo_date
        and r = None and later = "[]" and x = demo_review and t = "[]"]
    by blast
  have 3: "map fst (artifact demo_env demo_date (review_js demo_review)) =
     [''/p/2026-01-02-040405-add-rate-limiting.md'']"
    by (simp add: m s g p)
  show ?thesis using u 1 2 3 s by simp
qed

section \<open>The bookkeeping of the timers holds in every session\<close>

lemma timer_ok_frame:
  "timer_ok e (emit x s) = timer_ok e s"
  "timer_ok e (s\<lparr>timers := ts\<rparr>) = timer_ok e s"
  "timer_ok e (s\<lparr>resolved := b\<rparr>) = timer_ok e s"
  "timer_ok e (s\<lparr>server := b\<rparr>) = timer_ok e s"
  "timer_ok e (s\<lparr>listening := b\<rparr>) = timer_ok e s"
  "timer_ok e (s\<lparr>abort_listener := b\<rparr>) = timer_ok e s"
  "timer_ok e (s\<lparr>plans_dir_exists := b\<rparr>) = timer_ok e s"
  by (simp_all add: timer_ok_def emit_def fun_eq_iff)

lemma session_ok_frame:
  "session_ok e (emit x s) = session_ok e s"
  "session_ok e (s\<lparr>resolved := b\<rparr>) = session_ok e s"
  "session_ok e (s\<lparr>server := b\<rparr>) = session_ok e s"
  "session_ok e (s\<lparr>listening := b\<rparr>) = session_ok e s"
  "session_ok e (s\<lparr>abort_listener := b\<rparr>) = session_ok e s"
  "session_ok e (s\<lparr>plans_dir_exists := b\<rparr>) = session_ok e s"
  by (simp_all add: session_ok_def timer_ok_frame obs_emit split: option.splits)

lemma session_ok_filter:
  "session_ok e s \<Longrightarrow> session_ok e (s\<lparr>timers := filter P (timers s)\<rparr>)"
  by (simp add: session_ok_def timer_ok_frame list_all_iff split: option.splits)

lemma clear_idle_ok: "session_ok e s \<Longrightarrow> session_ok e (clear_idle s)"
  by (simp add: clear_idle_def clearTimeout_def session_ok_filter split: option.splits)

lemma clear_idle_timers:
  "timers (clear_idle s) = filter (\<lambda>t. Some (tid t) \<noteq> timeoutId s) (timers s)"
  by (cases "timeoutId s") (simp_all add: clear_idle_def clearTimeout_def)

lemma clear_idle_no_idle:
  "session_ok e s \<Longrightarrow> list_all (\<lambda>tm. act tm \<noteq> IdleTimeout) (timers (clear_idle s))"
  by (auto simp add: clear_idle_timers session_ok_def timer_ok_def list_all_iff)

lemma find_none: "list_all (\<lambda>x. \<not> P x) xs \<Longrightarrow> find P xs = None"
  by (induction xs) simp_all

lemma find_append_miss: "list_all (\<lambda>x. \<not> P x) xs \<Longrightarrow> find P (xs @ ys) = find P ys"
  by (induction xs) simp_all

lemma clear_idle_deadline: "idle_deadline (clear_idle s) = None"
proof (cases "timeoutId s")
  case None
  then show ?thesis by (simp add: idle_deadline_def clear_idle_def)
next
  case (Some i)
  have "find (\<lambda>t. tid t = i) (filter (\<lambda>t. tid t \<noteq> i) (timers s)) = None"
    by (rule find_none) (simp add: list_all_iff)
  then show ?thesis using Some
    by (simp add: idle_deadline_def clear_idle_def clearTimeout_def)
qed

lemma grace_ok:
  "session_ok e s \<Longrightarrow> a \<noteq> IdleTimeout \<Longrightarrow> session_ok e (setTimeout a ms now s)"
  by (auto simp add: session_ok_def timer_ok_def setTimeout_def list_all_iff
      split: option.splits)

lemma grace_idle_stopped:
  assumes "session_ok e s" and "a \<noteq> IdleTimeout"
  shows "idle_stopped (setTimeout a ms now (emit x (clear_idle s)))"
proof -
  let ?c = "clear_idle s"
  have ok: "session_ok e ?c" using assms(1) by (rule clear_idle_ok)
  have none: "list_all (\<lambda>tm. act tm \<noteq> IdleTimeout) (timers ?c)"
    using assms(1) by (rule clear_idle_no_idle)
  have dl: "idle_deadline ?c = None" by (rule clear_idle_deadline)
  have fresh: "case timeoutId ?c of None \<Rightarrow> True | Some i \<Rightarrow> i < fresh ?c"
    using ok by (simp add: session_ok_def)
  have "idle_deadline (setTimeout a ms now (emit x ?c)) = None"
  proof (cases "timeoutId ?c")
    case None
    then show ?thesis by (simp add: idle_deadline_def setTimeout_def obs_emit)
  next
    case (Some i)
    have lt: "i < fresh ?c" using fresh Some by simp
    have f: "find (\<lambda>t. tid t = i) (timers ?c) = None"
      using dl Some by (simp add: idle_deadline_def)
    have "find (\<lambda>t. tid t = i)
        (timers ?c @ [\<lparr>tid = fresh ?c, due = now + timer_delay ms, act = a\<rparr>]) = None"
      using f lt by (induction "timers ?c") (auto simp add: find_None_iff)
    then show ?thesis using Some
      by (simp add: idle_deadline_def setTimeout_def obs_emit)
  qed
  then show ?thesis using none assms(2)
    by (simp add: idle_stopped_def setTimeout_def obs_emit)
qed

lemma resetTimeout_ok: "session_ok e s \<Longrightarrow> session_ok e (resetTimeout e now s)"
proof -
  assume ok: "session_ok e s"
  let ?c = "clear_idle (s\<lparr>lastActivity := now\<rparr>)"
  have tms: "timers ?c = filter (\<lambda>t. Some (tid t) \<noteq> timeoutId s) (timers s)"
    by (simp add: clear_idle_timers)
  have fr: "fresh ?c = fresh s" by (simp add: clear_idle_frame)
  have old: "\<forall>tm \<in> set (timers ?c). tid tm < fresh s \<and> act tm \<noteq> IdleTimeout"
    using ok by (auto simp add: tms session_ok_def timer_ok_def list_all_iff)
  show ?thesis
    using old
    by (auto simp add: resetTimeout_def Let_def session_ok_def timer_ok_def setTimeout_def fr
        list_all_iff clear_idle_frame)
qed

lemma resetTimeout_deadline:
  assumes "session_ok e s"
  shows "idle_deadline (resetTimeout e now s) = Some (now + timer_delay (timeout e * 1000))"
proof -
  let ?c = "clear_idle (s\<lparr>lastActivity := now\<rparr>)"
  have tms: "timers ?c = filter (\<lambda>t. Some (tid t) \<noteq> timeoutId s) (timers s)"
    by (simp add: clear_idle_timers)
  have fr: "fresh ?c = fresh s" by (simp add: clear_idle_frame)
  have "list_all (\<lambda>t. \<not> tid t = fresh s) (timers ?c)"
    using assms by (auto simp add: tms session_ok_def timer_ok_def list_all_iff)
  then have "find (\<lambda>t. tid t = fresh s)
      (timers ?c @ [\<lparr>tid = fresh s, due = now + timer_delay (timeout e * 1000),
                     act = IdleTimeout\<rparr>]) =
      Some \<lparr>tid = fresh s, due = now + timer_delay (timeout e * 1000), act = IdleTimeout\<rparr>"
    by (simp add: find_append_miss)
  then show ?thesis
    by (simp add: resetTimeout_def Let_def idle_deadline_def setTimeout_def fr)
qed

lemma find_Some_mem: "find P xs = Some x \<Longrightarrow> x \<in> set xs \<and> P x"
  by (induction xs) (auto split: if_splits)

lemma idle_deadline_due:
  assumes "session_ok e s" and "idle_deadline s = Some d"
  shows "d = lastActivity s + timer_delay (timeout e * 1000)"
proof -
  obtain i where i: "timeoutId s = Some i"
    using assms(2) by (cases "timeoutId s") (simp_all add: idle_deadline_def)
  obtain tm where f: "find (\<lambda>t. tid t = i) (timers s) = Some tm" and d: "d = due tm"
    using assms(2) i by (auto simp add: idle_deadline_def)
  have "tm \<in> set (timers s)" and "tid tm = i"
    using find_Some_mem [OF f] by simp_all
  then have "act tm = IdleTimeout \<and> due tm = lastActivity s + timer_delay (timeout e * 1000)"
    using assms(1) i by (auto simp add: session_ok_def timer_ok_def list_all_iff)
  then show ?thesis using d by simp
qed

lemma cleanup_ok: "session_ok e s \<Longrightarrow> session_ok e (cleanup s)"
  by (simp add: cleanup_def close_server_def session_ok_frame clear_idle_ok)

lemma finish_ok: "session_ok e s \<Longrightarrow> session_ok e (finish e d p s)"
  by (simp add: finish_def Let_def session_ok_frame cleanup_ok ensurePlansDir_def
      split: sum.splits)

lemma handle_request_ok: "session_ok e s \<Longrightarrow> session_ok e (handle_request e t0 t1 t2 req s)"
  by (simp add: handle_request_def handle_get_def respond_def Let_def session_ok_frame
      resetTimeout_ok grace_ok clear_idle_ok split: option.splits)

lemma fire_ok: "session_ok e s \<Longrightarrow> session_ok e (fire e tm s)"
  by (simp add: fire_def Let_def finish_ok session_ok_filter split: timer_action.splits)

lemma fold_fire_ok:
  "session_ok e s \<Longrightarrow>
   session_ok e
     (foldl (\<lambda>st tm. if tid tm \<in> set (map tid (timers st)) then fire e tm st else st) s tms)"
  by (induction tms arbitrary: s) (simp_all add: fire_ok)

lemma advance_ok: "session_ok e s \<Longrightarrow> session_ok e (advance e t s)"
  unfolding advance_def by (rule fold_fire_ok)

lemma step_ok: "session_ok e s \<Longrightarrow> session_ok e (step e ev s)"
  by (cases ev)
     (simp_all add: Let_def advance_ok handle_request_ok finish_ok session_ok_frame
        launch_failed_def server_failed_def cleanup_ok split: option.splits)

lemma run_ok: "session_ok e s \<Longrightarrow> session_ok e (run e evs s)"
  unfolding run_def by (induction evs arbitrary: s) (simp_all add: step_ok)

lemma start_ok: "session_ok e (start e b t)"
  unfolding start_def
  by (rule resetTimeout_ok) (simp add: session_ok_def)

section \<open>Requests and the idle deadline\<close>

lemma finish_trace: "\<exists>later. trace (finish e d p s) = trace s @ later"
  by (simp add: finish_def Let_def cleanup_def close_server_def ensurePlansDir_def emit_def
      clear_idle_frame split: sum.splits)

lemma fire_trace: "\<exists>later. trace (fire e tm s) = trace s @ later"
proof -
  let ?s1 = "s\<lparr>timers := filter (\<lambda>t. tid t \<noteq> tid tm) (timers s)\<rparr>"
  have "\<And>d p. \<exists>later. trace (finish e d p ?s1) = trace s @ later"
    using finish_trace [of e _ _ ?s1] by simp
  then show ?thesis
    by (simp add: fire_def Let_def split: timer_action.splits)
qed

text \<open>
  C5. A GET request to any path, in a session whose timer bookkeeping holds, with the
  clock not running backwards and the timeout within the range of the runtime's timers:
  afterwards the idle timer is due one full timeout after the clock reading of the
  request's last \<^verbatim>\<open>resetTimeout\<close>, which is not before the deadline it replaces; and the
  heartbeat answers 200 with a \<open>remaining\<close> between 0 and the timeout.
\<close>

theorem get_extends_deadline:
  "req_method req = ''GET'' \<and> session_ok e s \<and> lastActivity s \<le> t0 \<and> t0 \<le> t1 \<and> t1 \<le> t2 \<and>
   1 \<le> timeout e * 1000 \<and> timeout e * 1000 \<le> 2147483647 \<longrightarrow>
     idle_deadline (handle_request e t0 t1 t2 req s) =
       Some ((if pathname req = ''/heartbeat'' then t1 else t0) + timeout e * 1000) \<and>
     (\<forall>d. idle_deadline s = Some d \<longrightarrow>
          d \<le> (if pathname req = ''/heartbeat'' then t1 else t0) + timeout e * 1000) \<and>
     session_ok e (handle_request e t0 t1 t2 req s) \<and>
     (pathname req = ''/heartbeat'' \<longrightarrow>
        (\<exists>remaining.
           trace (handle_request e t0 t1 t2 req s) =
             trace s @ [Responded 200 (HeartbeatJson remaining)] \<and>
           0 \<le> remaining \<and> remaining \<le> timeout e))"
proof (intro impI, elim conjE)
  assume get: "req_method req = ''GET''" and ok: "session_ok e s"
    and t: "lastActivity s \<le> t0" "t0 \<le> t1" "t1 \<le> t2"
    and range: "1 \<le> timeout e * 1000" "timeout e * 1000 \<le> 2147483647"
  let ?T = "timeout e * 1000"
  have delay: "timer_delay ?T = ?T" using range by (simp add: timer_delay_def)
  let ?s1 = "resetTimeout e t0 s"
  let ?s2 = "resetTimeout e t1 ?s1"
  have ok1: "session_ok e ?s1" using ok by (rule resetTimeout_ok)
  have ok2: "session_ok e ?s2" using ok1 by (rule resetTimeout_ok)
  have d1: "idle_deadline ?s1 = Some (t0 + ?T)"
    using resetTimeout_deadline [OF ok, of t0] delay by simp
  have d2: "idle_deadline ?s2 = Some (t1 + ?T)"
    using resetTimeout_deadline [OF ok1, of t1] delay by simp
  have resp: "\<And>c b st. idle_deadline (respond c b st) = idle_deadline st"
    by (simp add: respond_def idle_deadline_def obs_emit split: option.splits)
  have new: "idle_deadline (handle_request e t0 t1 t2 req s) =
       Some ((if pathname req = ''/heartbeat'' then t1 else t0) + ?T)"
    using get d1 d2 by (simp add: handle_request_def handle_get_def Let_def resp)
  have old: "\<forall>d. idle_deadline s = Some d \<longrightarrow>
          d \<le> (if pathname req = ''/heartbeat'' then t1 else t0) + ?T"
  proof (intro allI impI)
    fix d assume "idle_deadline s = Some d"
    then have "d = lastActivity s + ?T"
      using idle_deadline_due [OF ok] delay by simp
    then show "d \<le> (if pathname req = ''/heartbeat'' then t1 else t0) + ?T"
      using t by simp
  qed
  have ok': "session_ok e (handle_request e t0 t1 t2 req s)"
    using ok by (rule handle_request_ok)
  have beat: "\<exists>remaining.
           trace (handle_request e t0 t1 t2 req s) =
             trace s @ [Responded 200 (HeartbeatJson remaining)] \<and>
           0 \<le> remaining \<and> remaining \<le> timeout e"
    if hb: "pathname req = ''/heartbeat''"
  proof -
    have tr: "trace (handle_request e t0 t1 t2 req s) =
        trace s @ [Responded 200 (HeartbeatJson (max 0 (timeout e - (t2 - t1) div 1000)))]"
      using get hb
      by (simp add: handle_request_def handle_get_def Let_def respond_def obs_emit
          resetTimeout_frame)
    have "0 \<le> (t2 - t1) div 1000" using t by simp
    moreover have "0 \<le> timeout e" using range by simp
    ultimately have "max 0 (timeout e - (t2 - t1) div 1000) \<le> timeout e" by simp
    then show ?thesis using tr by simp
  qed
  show "idle_deadline (handle_request e t0 t1 t2 req s) =
       Some ((if pathname req = ''/heartbeat'' then t1 else t0) + timeout e * 1000) \<and>
     (\<forall>d. idle_deadline s = Some d \<longrightarrow>
          d \<le> (if pathname req = ''/heartbeat'' then t1 else t0) + timeout e * 1000) \<and>
     session_ok e (handle_request e t0 t1 t2 req s) \<and>
     (pathname req = ''/heartbeat'' \<longrightarrow>
        (\<exists>remaining.
           trace (handle_request e t0 t1 t2 req s) =
             trace s @ [Responded 200 (HeartbeatJson remaining)] \<and>
           0 \<le> remaining \<and> remaining \<le> timeout e))"
    using new old ok' beat by blast
qed

lemma demo_session_ok: "session_ok demo_env demo_session"
  unfolding demo_session_def by (rule run_ok) (rule start_ok)

lemma demo_session_facts:
  "lastActivity demo_session = 0"
  "idle_deadline demo_session = Some 600000"
  "trace demo_session = []"
  "timeout demo_env = 600"
  by code_simp+

theorem get_extends_deadline_witness:
  "req_method (get_path ''/heartbeat'') = ''GET'' \<and> session_ok demo_env demo_session \<and>
   lastActivity demo_session \<le> 10000 \<and> (10000::int) \<le> 10001 \<and> (10001::int) \<le> 12500 \<and>
   1 \<le> timeout demo_env * 1000 \<and> timeout demo_env * 1000 \<le> 2147483647 \<and>
   idle_deadline demo_session = Some 600000 \<and>
   idle_deadline (handle_request demo_env 10000 10001 12500 (get_path ''/heartbeat'') demo_session)
     = Some 610001 \<and>
   trace (handle_request demo_env 10000 10001 12500 (get_path ''/heartbeat'') demo_session)
     = [Responded 200 (HeartbeatJson 598)]"
proof -
  have g: "req_method (get_path ''/heartbeat'') = ''GET''"
    "pathname (get_path ''/heartbeat'') = ''/heartbeat''"
    by (simp_all add: get_path_def)
  have tr: "trace (handle_request demo_env 10000 10001 12500 (get_path ''/heartbeat'')
      demo_session) = [Responded 200 (HeartbeatJson 598)]"
    by code_simp
  have "idle_deadline
      (handle_request demo_env 10000 10001 12500 (get_path ''/heartbeat'') demo_session) =
      Some ((if pathname (get_path ''/heartbeat'') = ''/heartbeat'' then 10001 else 10000) +
            timeout demo_env * 1000)"
    using get_extends_deadline [where req = "get_path ''/heartbeat''" and e = demo_env
        and s = demo_session and ?t0.0 = 10000 and ?t1.0 = 10001 and ?t2.0 = 12500]
      g(1) demo_session_ok demo_session_facts(1,4)
    by simp
  then show ?thesis
    using g demo_session_ok demo_session_facts tr by simp
qed

section \<open>Submit and cancel\<close>

lemma post_terminal:
  assumes ok: "session_ok e s" and a: "a \<noteq> IdleTimeout"
  shows "trace (setTimeout a 500 t0 (respond 200 SuccessJson (clear_idle s))) =
           trace s @ [Responded 200 SuccessJson]"
    and "idle_stopped (setTimeout a 500 t0 (respond 200 SuccessJson (clear_idle s)))"
    and "timers (setTimeout a 500 t0 (respond 200 SuccessJson (clear_idle s))) =
           filter (\<lambda>t. Some (tid t) \<noteq> timeoutId s) (timers s) @
           [\<lparr>tid = fresh s, due = t0 + 500, act = a\<rparr>]"
    and "resolved (setTimeout a 500 t0 (respond 200 SuccessJson (clear_idle s))) = resolved s"
    and "resolutions (setTimeout a 500 t0 (respond 200 SuccessJson (clear_idle s))) =
           resolutions s"
proof -
  show "trace (setTimeout a 500 t0 (respond 200 SuccessJson (clear_idle s))) =
           trace s @ [Responded 200 SuccessJson]"
    by (simp add: setTimeout_frame respond_def obs_emit clear_idle_frame)
  show "idle_stopped (setTimeout a 500 t0 (respond 200 SuccessJson (clear_idle s)))"
    unfolding respond_def using ok a by (rule grace_idle_stopped)
  show "timers (setTimeout a 500 t0 (respond 200 SuccessJson (clear_idle s))) =
           filter (\<lambda>t. Some (tid t) \<noteq> timeoutId s) (timers s) @
           [\<lparr>tid = fresh s, due = t0 + 500, act = a\<rparr>]"
    by (simp add: setTimeout_def respond_def obs_emit clear_idle_timers clear_idle_frame
        timer_delay_def)
  show "resolved (setTimeout a 500 t0 (respond 200 SuccessJson (clear_idle s))) = resolved s"
    by (simp add: setTimeout_frame respond_def obs_emit clear_idle_frame)
  show "resolutions (setTimeout a 500 t0 (respond 200 SuccessJson (clear_idle s))) =
           resolutions s"
    by (simp add: setTimeout_frame respond_def obs_emit clear_idle_frame)
qed

lemma idle_deadline_emit: "idle_deadline (emit x s) = idle_deadline s"
  by (simp add: idle_deadline_def obs_emit split: option.splits)

lemma handle_post:
  "req_method req = ''POST'' \<Longrightarrow> pathname req = ''/submit'' \<Longrightarrow>
   json_parse e (body req) = Some v \<Longrightarrow>
   handle_request e t0 t1 t2 req s =
     setTimeout (GraceSubmit v) 500 t0 (respond 200 SuccessJson (clear_idle s))"
  "req_method req = ''POST'' \<Longrightarrow> pathname req = ''/cancel'' \<Longrightarrow>
   handle_request e t0 t1 t2 req s =
     setTimeout GraceCancel 500 t0 (respond 200 SuccessJson (clear_idle s))"
  "req_method req = ''POST'' \<Longrightarrow> pathname req = ''/submit'' \<Longrightarrow>
   json_parse e (body req) = None \<Longrightarrow>
   handle_request e t0 t1 t2 req s = emit (Responded 400 (ErrorJson ''Invalid JSON'')) s"
  by (simp_all add: handle_request_def respond_def)

text \<open>
  C6. A POST to \<^verbatim>\<open>/submit\<close> with a parseable body, or to \<^verbatim>\<open>/cancel\<close>, in a session whose
  timer bookkeeping holds: the handler stops the idle timer, answers 200 with
  \<^verbatim>\<open>{ success: true }\<close> and calls no callback; it leaves the callback in a timer due 500 ms
  later. Whatever that timer does when it runs comes after the acknowledgement in the
  trace.
\<close>

theorem ack_precedes_resolution:
  "session_ok e s \<and> req_method req = ''POST'' \<and>
   (pathname req = ''/submit'' \<and> json_parse e (body req) = Some v \<and> a = GraceSubmit v \<or>
    pathname req = ''/cancel'' \<and> a = GraceCancel) \<longrightarrow>
     trace (handle_request e t0 t1 t2 req s) = trace s @ [Responded 200 SuccessJson] \<and>
     idle_stopped (handle_request e t0 t1 t2 req s) \<and>
     timers (handle_request e t0 t1 t2 req s) =
       filter (\<lambda>t. Some (tid t) \<noteq> timeoutId s) (timers s) @
       [\<lparr>tid = fresh s, due = t0 + 500, act = a\<rparr>] \<and>
     resolved (handle_request e t0 t1 t2 req s) = resolved s \<and>
     resolutions (handle_request e t0 t1 t2 req s) = resolutions s \<and>
     (\<exists>later.
        trace (fire e \<lparr>tid = fresh s, due = t0 + 500, act = a\<rparr>
                 (handle_request e t0 t1 t2 req s)) =
          trace s @ [Responded 200 SuccessJson] @ later)"
proof (intro impI, elim conjE)
  assume ok: "session_ok e s" and post: "req_method req = ''POST''"
    and which: "pathname req = ''/submit'' \<and> json_parse e (body req) = Some v \<and>
        a = GraceSubmit v \<or> pathname req = ''/cancel'' \<and> a = GraceCancel"
  let ?s' = "setTimeout a 500 t0 (respond 200 SuccessJson (clear_idle s))"
  have a: "a \<noteq> IdleTimeout" using which by auto
  have h: "handle_request e t0 t1 t2 req s = ?s'"
    using which post handle_post(1) [of req e v t0 t1 t2 s] handle_post(2) [of req e t0 t1 t2 s]
    by auto
  obtain later where "trace (fire e \<lparr>tid = fresh s, due = t0 + 500, act = a\<rparr> ?s') =
      trace ?s' @ later"
    using fire_trace by blast
  then have f: "\<exists>later. trace (fire e \<lparr>tid = fresh s, due = t0 + 500, act = a\<rparr> ?s') =
      trace s @ [Responded 200 SuccessJson] @ later"
    using post_terminal(1) [OF ok a] by simp
  show "trace (handle_request e t0 t1 t2 req s) = trace s @ [Responded 200 SuccessJson] \<and>
     idle_stopped (handle_request e t0 t1 t2 req s) \<and>
     timers (handle_request e t0 t1 t2 req s) =
       filter (\<lambda>t. Some (tid t) \<noteq> timeoutId s) (timers s) @
       [\<lparr>tid = fresh s, due = t0 + 500, act = a\<rparr>] \<and>
     resolved (handle_request e t0 t1 t2 req s) = resolved s \<and>
     resolutions (handle_request e t0 t1 t2 req s) = resolutions s \<and>
     (\<exists>later.
        trace (fire e \<lparr>tid = fresh s, due = t0 + 500, act = a\<rparr>
                 (handle_request e t0 t1 t2 req s)) =
          trace s @ [Responded 200 SuccessJson] @ later)"
    unfolding h
    using post_terminal [OF ok a, of t0] f by blast
qed

theorem ack_precedes_resolution_witness:
  "session_ok demo_env demo_session \<and> req_method post_cancel = ''POST'' \<and>
   pathname post_cancel = ''/cancel'' \<and>
   trace (handle_request demo_env 1000 1000 1000 post_cancel demo_session) =
     trace demo_session @ [Responded 200 SuccessJson] \<and>
   idle_stopped (handle_request demo_env 1000 1000 1000 post_cancel demo_session) \<and>
   timers (handle_request demo_env 1000 1000 1000 post_cancel demo_session) =
     filter (\<lambda>t. Some (tid t) \<noteq> timeoutId demo_session) (timers demo_session) @
     [\<lparr>tid = fresh demo_session, due = 1000 + 500, act = GraceCancel\<rparr>] \<and>
   map (\<lambda>x. case x of Responded c b \<Rightarrow> 0 | Resolve r \<Rightarrow> 1 | _ \<Rightarrow> (2::nat))
     (trace (fire demo_env \<lparr>tid = fresh demo_session, due = 1000 + 500, act = GraceCancel\<rparr>
               (handle_request demo_env 1000 1000 1000 post_cancel demo_session))) = [0, 2, 1]"
proof -
  have p: "req_method post_cancel = ''POST''" "pathname post_cancel = ''/cancel''"
    by (simp_all add: post_cancel_def)
  have ev: "map (\<lambda>x. case x of Responded c b \<Rightarrow> 0 | Resolve r \<Rightarrow> 1 | _ \<Rightarrow> (2::nat))
     (trace (fire demo_env \<lparr>tid = fresh demo_session, due = 1000 + 500, act = GraceCancel\<rparr>
               (handle_request demo_env 1000 1000 1000 post_cancel demo_session))) = [0, 2, 1]"
    by code_simp
  show ?thesis
    using demo_session_ok p ev
      ack_precedes_resolution [where e = demo_env and s = demo_session and req = post_cancel
        and a = GraceCancel and ?t0.0 = 1000 and ?t1.0 = 1000 and ?t2.0 = 1000
        and v = "Plain Null"]
    by simp
qed

text \<open>
  C7. A POST to \<^verbatim>\<open>/submit\<close> whose body does not parse is answered 400 and changes nothing
  else: the timers, the idle deadline and the guard are as before and no callback is
  left to run. A body that parses to \<open>v\<close> is answered 200 with \<^verbatim>\<open>{ success: true }\<close>, and
  the timer the handler leaves calls the guard with \<open>v\<close> when it runs, 500 ms later; in
  a session not yet resolved that sets the guard, and resolves with \<open>v\<close> when \<open>v\<close> is a
  well-typed review.
\<close>

theorem unparseable_submit_is_refused:
  "req_method req = ''POST'' \<and> pathname req = ''/submit'' \<longrightarrow>
     (json_parse e (body req) = None \<longrightarrow>
        handle_request e t0 t1 t2 req s = emit (Responded 400 (ErrorJson ''Invalid JSON'')) s \<and>
        trace (handle_request e t0 t1 t2 req s) =
          trace s @ [Responded 400 (ErrorJson ''Invalid JSON'')] \<and>
        timers (handle_request e t0 t1 t2 req s) = timers s \<and>
        idle_deadline (handle_request e t0 t1 t2 req s) = idle_deadline s \<and>
        resolved (handle_request e t0 t1 t2 req s) = resolved s \<and>
        resolutions (handle_request e t0 t1 t2 req s) = resolutions s) \<and>
     (json_parse e (body req) = Some v \<longrightarrow>
        trace (handle_request e t0 t1 t2 req s) = trace s @ [Responded 200 SuccessJson] \<and>
        last (timers (handle_request e t0 t1 t2 req s)) =
          \<lparr>tid = fresh s, due = t0 + 500, act = GraceSubmit v\<rparr> \<and>
        fire e \<lparr>tid = fresh s, due = t0 + 500, act = GraceSubmit v\<rparr>
            (handle_request e t0 t1 t2 req s) =
          finish e (date_at e (t0 + 500)) v
            ((handle_request e t0 t1 t2 req s)
               \<lparr>timers := filter (\<lambda>t. tid t \<noteq> fresh s)
                             (timers (handle_request e t0 t1 t2 req s))\<rparr>) \<and>
        (\<not> resolved s \<longrightarrow>
           resolved (fire e \<lparr>tid = fresh s, due = t0 + 500, act = GraceSubmit v\<rparr>
                       (handle_request e t0 t1 t2 req s)) \<and>
           (v = review_js x \<longrightarrow>
              (\<exists>res. resolutions
                        (fire e \<lparr>tid = fresh s, due = t0 + 500, act = GraceSubmit v\<rparr>
                           (handle_request e t0 t1 t2 req s)) = resolutions s @ [res] \<and>
                     res_review res = Some v))))"
proof (intro impI, elim conjE)
  assume post: "req_method req = ''POST''" and path: "pathname req = ''/submit''"
  let ?h = "handle_request e t0 t1 t2 req s"
  let ?tm = "\<lparr>tid = fresh s, due = t0 + 500, act = GraceSubmit v\<rparr>"
  have bad: "?h = emit (Responded 400 (ErrorJson ''Invalid JSON'')) s \<and>
        trace ?h = trace s @ [Responded 400 (ErrorJson ''Invalid JSON'')] \<and>
        timers ?h = timers s \<and> idle_deadline ?h = idle_deadline s \<and>
        resolved ?h = resolved s \<and> resolutions ?h = resolutions s"
    if n: "json_parse e (body req) = None"
    using handle_post(3) [OF post path n, of t0 t1 t2 s]
    by (simp add: obs_emit idle_deadline_def split: option.splits)
  have good: "trace ?h = trace s @ [Responded 200 SuccessJson] \<and>
        last (timers ?h) = ?tm \<and>
        fire e ?tm ?h =
          finish e (date_at e (t0 + 500)) v
            (?h\<lparr>timers := filter (\<lambda>t. tid t \<noteq> fresh s) (timers ?h)\<rparr>) \<and>
        (\<not> resolved s \<longrightarrow>
           resolved (fire e ?tm ?h) \<and>
           (v = review_js x \<longrightarrow>
              (\<exists>res. resolutions (fire e ?tm ?h) = resolutions s @ [res] \<and>
                     res_review res = Some v)))"
    if y: "json_parse e (body req) = Some v"
  proof -
    have h: "?h = setTimeout (GraceSubmit v) 500 t0 (respond 200 SuccessJson (clear_idle s))"
      using handle_post(1) [OF post path y] .
    have tr: "trace ?h = trace s @ [Responded 200 SuccessJson]"
      unfolding h by (simp add: setTimeout_frame respond_def obs_emit clear_idle_frame)
    have la: "last (timers ?h) = ?tm"
      unfolding h by (simp add: setTimeout_def respond_def obs_emit clear_idle_frame
          timer_delay_def)
    let ?s1 = "?h\<lparr>timers := filter (\<lambda>t. tid t \<noteq> fresh s) (timers ?h)\<rparr>"
    have fi: "fire e ?tm ?h = finish e (date_at e (t0 + 500)) v ?s1"
      by (simp add: fire_def Let_def)
    have r1: "resolved ?s1 = resolved s" "resolutions ?s1 = resolutions s"
      unfolding h
      by (simp_all add: setTimeout_frame respond_def obs_emit clear_idle_frame obs_frame)
    have res: "resolved (fire e ?tm ?h)"
      unfolding fi by (rule finish_sets_resolved)
    have typed: "\<exists>res. resolutions (fire e ?tm ?h) = resolutions s @ [res] \<and>
        res_review res = Some v"
      if u: "\<not> resolved s" and v: "v = review_js x"
    proof -
      have "\<not> resolved ?s1" using u r1 by simp
      from finish_typed [OF this, of e "date_at e (t0 + 500)" x]
      show ?thesis unfolding fi v [symmetric] using r1 v by auto
    qed
    show ?thesis using tr la fi res typed by blast
  qed
  show "(json_parse e (body req) = None \<longrightarrow>
        ?h = emit (Responded 400 (ErrorJson ''Invalid JSON'')) s \<and>
        trace ?h = trace s @ [Responded 400 (ErrorJson ''Invalid JSON'')] \<and>
        timers ?h = timers s \<and> idle_deadline ?h = idle_deadline s \<and>
        resolved ?h = resolved s \<and> resolutions ?h = resolutions s) \<and>
     (json_parse e (body req) = Some v \<longrightarrow>
        trace ?h = trace s @ [Responded 200 SuccessJson] \<and>
        last (timers ?h) = ?tm \<and>
        fire e ?tm ?h =
          finish e (date_at e (t0 + 500)) v
            (?h\<lparr>timers := filter (\<lambda>t. tid t \<noteq> fresh s) (timers ?h)\<rparr>) \<and>
        (\<not> resolved s \<longrightarrow>
           resolved (fire e ?tm ?h) \<and>
           (v = review_js x \<longrightarrow>
              (\<exists>res. resolutions (fire e ?tm ?h) = resolutions s @ [res] \<and>
                     res_review res = Some v))))"
    using bad good by blast
qed

theorem unparseable_submit_is_refused_witness:
  "req_method (post_submit ''{oops'') = ''POST'' \<and> pathname (post_submit ''{oops'') = ''/submit'' \<and>
   json_parse demo_env (body (post_submit ''{oops'')) = None \<and>
   handle_request demo_env 1000 1000 1000 (post_submit ''{oops'') demo_session =
     emit (Responded 400 (ErrorJson ''Invalid JSON'')) demo_session \<and>
   idle_deadline (handle_request demo_env 1000 1000 1000 (post_submit ''{oops'') demo_session) =
     Some 600000 \<and>
   \<not> resolved (handle_request demo_env 1000 1000 1000 (post_submit ''{oops'') demo_session) \<and>
   json_parse demo_env (body (post_submit ''A'')) = Some (review_js demo_review) \<and>
   trace (handle_request demo_env 1000 1000 1000 (post_submit ''A'') demo_session) =
     trace demo_session @ [Responded 200 SuccessJson]"
proof -
  have p: "\<And>b. req_method (post_submit b) = ''POST''" "\<And>b. pathname (post_submit b) = ''/submit''"
    "\<And>b. body (post_submit b) = b"
    by (simp_all add: post_submit_def)
  have j: "json_parse demo_env ''{oops'' = None"
    "json_parse demo_env ''A'' = Some (review_js demo_review)"
    by (simp_all add: demo_env_def)
  show ?thesis
    using p j demo_session_unresolved demo_session_facts(2)
      unparseable_submit_is_refused [where req = "post_submit ''{oops''" and e = demo_env
        and s = demo_session and ?t0.0 = 1000 and ?t1.0 = 1000 and ?t2.0 = 1000
        and v = "Plain Null" and x = demo_review]
      unparseable_submit_is_refused [where req = "post_submit ''A''" and e = demo_env
        and s = demo_session and ?t0.0 = 1000 and ?t1.0 = 1000 and ?t2.0 = 1000
        and v = "review_js demo_review" and x = demo_review]
    by (simp add: obs_emit idle_deadline_emit)
qed

section \<open>A browser that does not open\<close>

lemma finish_listening: "listening (finish e d p s) \<Longrightarrow> listening s"
  by (simp add: finish_def Let_def cleanup_def close_server_def ensurePlansDir_def obs_emit
      split: sum.splits if_splits)

lemma fire_listening: "listening (fire e tm s) \<Longrightarrow> listening s"
proof -
  assume a: "listening (fire e tm s)"
  let ?s1 = "s\<lparr>timers := filter (\<lambda>t. tid t \<noteq> tid tm) (timers s)\<rparr>"
  have "\<And>d p. listening (finish e d p ?s1) \<Longrightarrow> listening ?s1" by (rule finish_listening)
  then have "listening ?s1"
    using a by (auto simp add: fire_def Let_def split: timer_action.splits)
  then show ?thesis by simp
qed

lemma fold_fire_closed:
  "\<not> listening s \<Longrightarrow>
   \<not> listening
      (foldl (\<lambda>st tm. if tid tm \<in> set (map tid (timers st)) then fire e tm st else st) s tms)"
proof (induction tms arbitrary: s)
  case Nil
  then show ?case by simp
next
  case (Cons tm tms)
  have "\<not> listening (fire e tm s)" using Cons.prems fire_listening by blast
  then show ?case using Cons by simp
qed

lemma advance_closed: "\<not> listening s \<Longrightarrow> \<not> listening (advance e t s)"
  unfolding advance_def by (rule fold_fire_closed)

lemma close_server_stops:
  assumes "session_ok e s"
  shows "idle_stopped ((close_server s)\<lparr>server := False\<rparr>)"
proof -
  have "list_all (\<lambda>tm. act tm \<noteq> IdleTimeout) (timers (clear_idle s))"
    using assms by (rule clear_idle_no_idle)
  moreover have "idle_deadline (clear_idle s) = None" by (rule clear_idle_deadline)
  ultimately show ?thesis
    by (simp add: idle_stopped_def close_server_def idle_deadline_def emit_def
        split: option.splits)
qed

text \<open>
  C4, as the code has it. When the launcher fails, the \<^verbatim>\<open>catch\<close> runs \<^verbatim>\<open>cleanup()\<close> and
  resolves at once: the server is closed and its idle timer stopped, so the session URL
  is no longer served; the result is pending, not rejected, says that the browser failed
  to open, and carries the plan; no artifact is written. A closed server answers no
  request.
\<close>

theorem launch_failure_closes_session:
  "(openUrl r = Some message \<longrightarrow>
      step e (Opened t r) s = launch_failed e message (advance e t s)) \<and>
   (server s \<longrightarrow>
      \<not> listening (launch_failed e message s) \<and>
      closes (launch_failed e message s) = closes s + 1 \<and>
      (session_ok e s \<longrightarrow> idle_stopped (launch_failed e message s))) \<and>
   resolutions (launch_failed e message s) =
     resolutions s @ [pending_result e (''Failed to open browser: '' @ message)] \<and>
   files_written (launch_failed e message s) = files_written s \<and>
   res_status (pending_result e c) = Pending \<and>
   res_plan (pending_result e c) = plan e \<and>
   pending_result e c \<noteq> rejected_result e p \<and>
   (\<not> listening s \<longrightarrow> step e (Request t0 t1 t2 req) s = advance e t0 s)"
proof -
  have 1: "openUrl r = Some message \<longrightarrow>
      step e (Opened t r) s = launch_failed e message (advance e t s)"
    by (simp add: Let_def)
  have 2: "\<not> listening (launch_failed e message s) \<and>
      closes (launch_failed e message s) = closes s + 1" if "server s"
    using that
    by (simp add: launch_failed_def cleanup_def close_server_def obs_emit obs_frame
        clear_idle_frame)
  have 3: "idle_stopped (launch_failed e message s)" if "server s" and "session_ok e s"
    using close_server_stops [OF that(2)] that(1)
    by (simp add: launch_failed_def cleanup_def idle_stopped_def idle_deadline_emit obs_emit)
  have 4: "resolutions (launch_failed e message s) =
     resolutions s @ [pending_result e (''Failed to open browser: '' @ message)]"
    by (simp add: launch_failed_def obs_emit cleanup_obs)
  have 5: "files_written (launch_failed e message s) = files_written s"
    by (simp add: launch_failed_def obs_emit cleanup_obs)
  have 6: "res_status (pending_result e c) = Pending \<and> res_plan (pending_result e c) = plan e"
    by (simp add: pending_result_def)
  have "res_status (pending_result e c) \<noteq> res_status (rejected_result e p)"
    by (simp add: pending_result_def rejected_result_def)
  then have 7: "pending_result e c \<noteq> rejected_result e p" by auto
  have 8: "step e (Request t0 t1 t2 req) s = advance e t0 s" if "\<not> listening s"
    using advance_closed [OF that, of e t0] by (simp add: Let_def)
  show ?thesis using 1 2 3 4 5 6 7 8 by blast
qed

lemma demo_session_server: "server demo_session"
  by code_simp

theorem launch_failure_closes_session_witness:
  "openUrl launcher_broken = Some ''Failed to open browser (exit code 1)'' \<and>
   server demo_session \<and> session_ok demo_env demo_session \<and>
   step demo_env (Opened 5 launcher_broken) demo_session =
     launch_failed demo_env ''Failed to open browser (exit code 1)'' (advance demo_env 5 demo_session) \<and>
   \<not> listening (launch_failed demo_env ''boom'' demo_session) \<and>
   idle_stopped (launch_failed demo_env ''boom'' demo_session) \<and>
   resolutions (launch_failed demo_env ''boom'' demo_session) =
     resolutions demo_session @ [pending_result demo_env (''Failed to open browser: '' @ ''boom'')] \<and>
   step demo_env (Request 9 9 9 (get_path ''/''))
     (launch_failed demo_env ''boom'' demo_session) =
     advance demo_env 9 (launch_failed demo_env ''boom'' demo_session)"
proof -
  have o: "openUrl launcher_broken = Some ''Failed to open browser (exit code 1)''"
    by code_simp
  note t1 = launch_failure_closes_session [where r = launcher_broken
      and message = "''Failed to open browser (exit code 1)''" and e = demo_env and t = 5
      and s = demo_session and c = "''''" and p = "Plain Null" and ?t0.0 = 9 and ?t1.0 = 9
      and ?t2.0 = 9 and req = "get_path ''/''"]
  note t2 = launch_failure_closes_session [where r = launcher_broken
      and message = "''boom''" and e = demo_env and t = 5
      and s = demo_session and c = "''''" and p = "Plain Null" and ?t0.0 = 9 and ?t1.0 = 9
      and ?t2.0 = 9 and req = "get_path ''/''"]
  note t3 = launch_failure_closes_session [where r = launcher_broken
      and message = "''boom''" and e = demo_env and t = 5
      and s = "launch_failed demo_env ''boom'' demo_session" and c = "''''" and p = "Plain Null"
      and ?t0.0 = 9 and ?t1.0 = 9 and ?t2.0 = 9 and req = "get_path ''/''"]
  have a: "step demo_env (Opened 5 launcher_broken) demo_session =
     launch_failed demo_env ''Failed to open browser (exit code 1)'' (advance demo_env 5 demo_session)"
    using t1 o by blast
  have b: "\<not> listening (launch_failed demo_env ''boom'' demo_session)"
    "idle_stopped (launch_failed demo_env ''boom'' demo_session)"
    "resolutions (launch_failed demo_env ''boom'' demo_session) =
     resolutions demo_session @ [pending_result demo_env (''Failed to open browser: '' @ ''boom'')]"
    using t2 demo_session_server demo_session_ok by blast+
  have c: "step demo_env (Request 9 9 9 (get_path ''/''))
     (launch_failed demo_env ''boom'' demo_session) =
     advance demo_env 9 (launch_failed demo_env ''boom'' demo_session)"
    using t3 b(1) by blast
  show ?thesis using o demo_session_server demo_session_ok a b c by blast
qed

text \<open>
  C4 as stated fails: after a launcher that exits with code 1 the server no longer
  listens, its idle timer is gone, and a GET of the session URL gets no reply.
\<close>

theorem launch_failure_counterexample:
  "openUrl launcher_broken = Some ''Failed to open browser (exit code 1)'' \<and>
   listening (run demo_env [Started 1] (start demo_env True 0)) \<and>
   \<not> listening (run demo_env [Started 1, Opened 2 launcher_broken] (start demo_env True 0)) \<and>
   idle_deadline (run demo_env [Started 1, Opened 2 launcher_broken] (start demo_env True 0)) =
     None \<and>
   trace (run demo_env [Started 1, Opened 2 launcher_broken, Request 3 3 3 (get_path ''/'')]
            (start demo_env True 0)) =
     trace (run demo_env [Started 1, Opened 2 launcher_broken] (start demo_env True 0)) \<and>
   map res_status
     (resolutions (run demo_env [Started 1, Opened 2 launcher_broken] (start demo_env True 0))) =
     [Pending]"
  by code_simp

section \<open>Finding the payload in the response\<close>









section \<open>A payload of any shape\<close>












end
